theory Spec2Isabelle
  imports Complex_Main
begin

section \<open>JavaScript strings\<close>

text \<open>
  The services work on JavaScript strings. They are modelled as lists of 8-bit
  characters holding ASCII text; the one character outside ASCII that the code names,
  the breadcrumb separator U+203A, is represented by the character \<open>0x9B\<close>.
  A field that the code reads as \<^verbatim>\<open>(x || '')\<close> is a string whose absent value is the
  empty string, which the code cannot tell from \<^verbatim>\<open>null\<close> or \<^verbatim>\<open>undefined\<close>.
\<close>

definition isUpper :: "char \<Rightarrow> bool" where
  \<comment> \<open>the character class \<^verbatim>\<open>[A-Z]\<close>, by character code\<close>
  "isUpper c = ((65::nat) \<le> of_char c \<and> of_char c \<le> (90::nat))"

definition isLowerAlnum :: "char \<Rightarrow> bool" where
  \<comment> \<open>the character class \<^verbatim>\<open>[a-z0-9]\<close>\<close>
  "isLowerAlnum c = (((97::nat) \<le> of_char c \<and> of_char c \<le> (122::nat))
                     \<or> ((48::nat) \<le> of_char c \<and> of_char c \<le> (57::nat)))"

definition isWordChar :: "char \<Rightarrow> bool" where
  \<comment> \<open>the character class \<^verbatim>\<open>\w\<close>, which decides \<^verbatim>\<open>\b\<close>\<close>
  "isWordChar c = (isLowerAlnum c \<or> isUpper c \<or> c = CHR ''_'')"

definition isSpace :: "char \<Rightarrow> bool" where
  \<comment> \<open>the character class \<^verbatim>\<open>\s\<close> on ASCII: tab, LF, VT, FF, CR, space\<close>
  "isSpace c = (c = CHR 0x09 \<or> c = CHR 0x0A \<or> c = CHR 0x0B \<or> c = CHR 0x0C \<or> c = CHR 0x0D
                \<or> c = CHR '' '')"

definition lowerChar :: "char \<Rightarrow> char" where
  "lowerChar c = (if isUpper c then char_of (of_char c + (32::nat)) else c)"

definition toLowerCase :: "string \<Rightarrow> string" where
  "toLowerCase s = map lowerChar s"

definition startsWith :: "string \<Rightarrow> string \<Rightarrow> bool" where
  "startsWith s t = (take (length t) s = t)"

definition endsWith :: "string \<Rightarrow> string \<Rightarrow> bool" where
  "endsWith s t = (length t \<le> length s \<and> drop (length s - length t) s = t)"

fun str_includes :: "string \<Rightarrow> string \<Rightarrow> bool" where
  \<comment> \<open>\<^verbatim>\<open>s.includes(t)\<close>: \<open>t\<close> occurs in \<open>s\<close> as a contiguous substring\<close>
  "str_includes [] t = (t = [])"
| "str_includes (c # cs) t = (startsWith (c # cs) t \<or> str_includes cs t)"

definition trim :: "string \<Rightarrow> string" where
  "trim s = rev (dropWhile isSpace (rev (dropWhile isSpace s)))"

fun join :: "string \<Rightarrow> string list \<Rightarrow> string" where
  \<comment> \<open>\<^verbatim>\<open>xs.join(sep)\<close>\<close>
  "join sep [] = []"
| "join sep [x] = x"
| "join sep (x # y # ys) = x @ sep @ join sep (y # ys)"

definition consHead :: "char \<Rightarrow> string list \<Rightarrow> string list" where
  \<comment> \<open>puts a character in front of the first piece of a split\<close>
  "consHead c ps = (case ps of [] \<Rightarrow> [[c]] | p # ps' \<Rightarrow> (c # p) # ps')"

fun splitChar :: "(char \<Rightarrow> bool) \<Rightarrow> string \<Rightarrow> string list" where
  \<comment> \<open>\<^verbatim>\<open>s.split(/[...]/)\<close> for a class of single separator characters: every separator
      cuts, so neighbouring separators give empty pieces; the empty string gives \<open>['''']\<close>\<close>
  "splitChar P [] = [[]]"
| "splitChar P (c # cs) = (if P c then [] # splitChar P cs else consHead c (splitChar P cs))"

function splitRuns :: "(char \<Rightarrow> bool) \<Rightarrow> string \<Rightarrow> string list" where
  \<comment> \<open>\<^verbatim>\<open>s.split(/[...]+/)\<close>: a maximal run of separator characters cuts once\<close>
  "splitRuns P [] = [[]]"
| "splitRuns P (c # cs) =
     (if P c then [] # splitRuns P (dropWhile P cs) else consHead c (splitRuns P cs))"
  by pat_completeness auto
termination
  by (relation "measure (\<lambda>(P, s). length s)")
     (auto simp: le_imp_less_Suc length_dropWhile_le)

fun splitBeforeUpper :: "string \<Rightarrow> string list" where
  \<comment> \<open>\<^verbatim>\<open>s.split(/(?=[A-Z])/)\<close>: cuts in front of every capital letter but the first
      character, and keeps the capital\<close>
  "splitBeforeUpper [] = [[]]"
| "splitBeforeUpper [c] = [[c]]"
| "splitBeforeUpper (c # d # cs) =
     (if isUpper d then [c] # splitBeforeUpper (d # cs) else consHead c (splitBeforeUpper (d # cs)))"

definition uniq :: "'a list \<Rightarrow> 'a list" where
  \<comment> \<open>\<^verbatim>\<open>[...new Set(xs)]\<close>: the first occurrence of every element, in order\<close>
  "uniq xs = rev (remdups (rev xs))"

section \<open>The change classifier: \<^verbatim>\<open>analyzePR\<close> of the Bitbucket service\<close>

text \<open>
  A changed file as \<^verbatim>\<open>analyzePR\<close> reads it: \<open>path\<close> is what the helper \<^verbatim>\<open>getPath\<close>
  returns for the entry, \<open>linesAdded\<close> is \<^verbatim>\<open>f.linesAdded || f.lines_added || 0\<close> and
  \<open>linesRemoved\<close> is \<^verbatim>\<open>f.linesRemoved || f.lines_removed || 0\<close>.
\<close>

record changedFile =
  path :: string
  linesAdded :: nat
  linesRemoved :: nat

record pullRequest =
  prTitle :: string

record prMetrics =
  filesChanged :: nat
  linesChanged :: nat
  sharedComponents :: nat
  onlyStyleChanges :: bool

record prAnalysis =
  category :: string
  riskScore :: int
  riskLevel :: string
  metrics :: prMetrics

definition mathRound :: "rat \<Rightarrow> int" where
  \<comment> \<open>\<^verbatim>\<open>Math.round\<close>: the nearest integer, a half going up\<close>
  "mathRound x = \<lfloor>x + 1 / 2\<rfloor>"

definition totalLinesOf :: "changedFile list \<Rightarrow> nat" where
  "totalLinesOf files = foldl (\<lambda>sum f. sum + linesAdded f + linesRemoved f) 0 files"

definition touchesShared :: "changedFile \<Rightarrow> bool" where
  "touchesShared f = (str_includes (path f) ''shared'' \<or> str_includes (path f) ''core''
                      \<or> str_includes (path f) ''common'' \<or> str_includes (path f) ''utils'')"

definition isStyleFile :: "changedFile \<Rightarrow> bool" where
  "isStyleFile f = (endsWith (path f) ''.css'' \<or> endsWith (path f) ''.scss''
                    \<or> endsWith (path f) ''.less'' \<or> str_includes (path f) ''style'')"

definition titleSaysMinor :: "string \<Rightarrow> bool" where
  "titleSaysMinor title = (str_includes title ''minor'' \<or> str_includes title ''quick''
                           \<or> str_includes title ''small'' \<or> str_includes title ''fix'')"

definition rawRiskScore :: "nat \<Rightarrow> nat \<Rightarrow> nat \<Rightarrow> rat" where
  \<comment> \<open>the local \<^verbatim>\<open>riskScore\<close> of \<^verbatim>\<open>analyzePR\<close>, before it is rounded for the result.
      The source computes it in double precision; on natural numbers of any realistic size
      the product with 0.05 and the sums are the exact values wherever a comparison below
      or the rounding could tell the difference (the multiples of a quarter), so the exact
      rational is used.\<close>
  "rawRiskScore totalFiles shared totalLines =
     min 100 (of_nat totalFiles * 1 + of_nat shared * 10 + of_nat totalLines * (5 / 100))"

definition analyzePR :: "pullRequest \<Rightarrow> changedFile list \<Rightarrow> prAnalysis" where
  "analyzePR pr files =
     (let totalFiles = length files;
          totalLines = totalLinesOf files;
          shared = length (filter touchesShared files);
          onlyStyle = list_all isStyleFile files;
          title = toLowerCase (prTitle pr);
          isSarcastic = (titleSaysMinor title \<and> (totalFiles > 5 \<or> totalLines > 100));
          risk = rawRiskScore totalFiles shared totalLines;
          cat = (if onlyStyle then ''Sleepy PR''
                 else if isSarcastic then ''Sarcastic PR''
                 else if shared > 3 \<or> risk > 85 then ''Overloaded PR''
                 else if totalFiles > 10 \<or> totalLines > 500 then ''Angry PR''
                 else ''Relaxed PR'');
          level = (if risk < 30 then ''Low'' else if risk < 70 then ''Medium'' else ''High'')
      in \<lparr>category = cat, riskScore = mathRound risk, riskLevel = level,
          metrics = \<lparr>filesChanged = totalFiles, linesChanged = totalLines,
                     sharedComponents = shared, onlyStyleChanges = onlyStyle\<rparr>\<rparr>)"

section \<open>The keyword extractor: \<^verbatim>\<open>extractSignificantKeywords\<close> of the TestRail service\<close>

definition stopWords :: "string list" where
  "stopWords =
     [''the'', ''and'', ''for'', ''are'', ''but'', ''not'', ''you'', ''all'', ''can'', ''has'',
      ''was'', ''were'', ''been'', ''have'', ''this'', ''that'', ''with'', ''from'', ''they'',
      ''will'', ''would'', ''there'', ''their'', ''what'', ''which'', ''when'', ''where'',
      ''should'', ''could'', ''make'', ''made'', ''able'', ''about'', ''into'', ''than'',
      ''them'', ''these'', ''those'', ''does'', ''done'']"

definition isKeywordSep :: "char \<Rightarrow> bool" where
  \<comment> \<open>the character class \<^verbatim>\<open>[\s,.-]\<close>\<close>
  "isKeywordSep c = (isSpace c \<or> c = CHR '','' \<or> c = CHR ''.'' \<or> c = CHR ''-'')"

definition isSignificant :: "string \<Rightarrow> bool" where
  \<comment> \<open>the filter of the extractor: four characters or more, matching
      \<^verbatim>\<open>/^[a-z0-9]+$/\<close>, and no stop word\<close>
  "isSignificant word =
     (length word \<ge> 4 \<and> word \<noteq> [] \<and> list_all isLowerAlnum word \<and> word \<notin> set stopWords)"

definition extractSignificantKeywords :: "string \<Rightarrow> string list" where
  "extractSignificantKeywords text =
     (if text = [] then []
      else uniq (filter isSignificant (splitRuns isKeywordSep (toLowerCase text))))"

section \<open>Component resolution: step 2 of \<^verbatim>\<open>getImpactedTestCases\<close>\<close>

definition USER_ROLES :: "string list" where
  "USER_ROLES = [''admin'', ''investigator'', ''reviewer'', ''applicant'']"

definition isPartSep :: "char \<Rightarrow> bool" where
  \<comment> \<open>the character class \<^verbatim>\<open>[-_\s]\<close>\<close>
  "isPartSep c = (c = CHR ''-'' \<or> c = CHR ''_'' \<or> isSpace c)"

definition cleanedParts :: "string \<Rightarrow> string list" where
  \<comment> \<open>the label split on \<^verbatim>\<open>/[-_\s]/\<close>, every part trimmed and put in lower case, the
      empty parts and the role names removed\<close>
  "cleanedParts jiraComp =
     filter (\<lambda>p. p \<notin> set USER_ROLES)
       (filter (\<lambda>p. p \<noteq> [])
          (map (\<lambda>p. toLowerCase (trim p)) (splitChar isPartSep jiraComp)))"

definition componentParts :: "string \<Rightarrow> string list" where
  \<comment> \<open>the final \<^verbatim>\<open>compParts\<close>: the cleaned parts, then the pieces of every cleaned part
      cut at \<^verbatim>\<open>/(?=[A-Z])/\<close>, without duplicates and empty strings\<close>
  "componentParts jiraComp =
     (let compParts = cleanedParts jiraComp;
          expandedParts = concat (map (\<lambda>part. map toLowerCase (splitBeforeUpper part)) compParts)
      in filter (\<lambda>p. p \<noteq> []) (uniq (compParts @ expandedParts)))"

text \<open>
  The traceability table is \<^verbatim>\<open>Object.entries(traceabilityMatrix.components || {})\<close>: the
  component names in iteration order, each with \<^verbatim>\<open>obj.tags || []\<close>.
\<close>

type_synonym traceabilityTable = "(string \<times> string list) list"

definition hasMatch :: "string list \<Rightarrow> string \<Rightarrow> bool" where
  "hasMatch compParts trCompName =
     (let trCompWords = splitRuns isPartSep (toLowerCase trCompName)
      in list_ex (\<lambda>part. list_ex (\<lambda>word. str_includes word part \<or> str_includes part word)
                    trCompWords) compParts)"

definition matchedTRComponent :: "string list \<Rightarrow> traceabilityTable \<Rightarrow> (string \<times> string list) option" where
  \<comment> \<open>the first entry of the table that matches, where the loop breaks\<close>
  "matchedTRComponent compParts componentMapping =
     find (\<lambda>(trCompName, tags). hasMatch compParts trCompName) componentMapping"

definition componentTags :: "string \<Rightarrow> traceabilityTable \<Rightarrow> string list" where
  \<comment> \<open>\<^verbatim>\<open>tags\<close> after the loop; \<^verbatim>\<open>!matchedTRComponent\<close> also holds for a matching entry
      whose name is the empty string\<close>
  "componentTags jiraComp componentMapping =
     (let compParts = componentParts jiraComp
      in case matchedTRComponent compParts componentMapping of
           None \<Rightarrow> compParts
         | Some (trCompName, tags) \<Rightarrow> if trCompName = [] then compParts else tags)"

definition searchTermsOf :: "string list \<Rightarrow> string list" where
  \<comment> \<open>\<^verbatim>\<open>uniqueSearchTerms\<close>\<close>
  "searchTermsOf tags =
     uniq (concat (map (\<lambda>tag. filter (\<lambda>p. length p > 2)
                                  (map (\<lambda>p. toLowerCase (trim p)) (splitChar isPartSep tag))) tags))"

section \<open>The impact selector: \<^verbatim>\<open>getImpactedTestCases\<close> of the TestRail service\<close>

text \<open>
  The model starts where the two paginated fetches end: the inventory is the list
  \<^verbatim>\<open>allCases\<close> after every case has received its \<^verbatim>\<open>sectionPath\<close>. A test case carries the
  fields that the selector and the scorer read; \<open>custom_fields\<close> is the text
  \<^verbatim>\<open>JSON.stringify(testCase.custom_fields || {})\<close>.
\<close>

record testCase =
  tc_id :: nat
  tc_title :: string
  tc_refs :: string
  sectionPath :: string
  section_id :: "nat option"
  priority_id :: "int option"
  custom_fields :: string

record impactOptions =
  jiraId :: string
  changedFiles :: "changedFile list"
  traceabilityMatrix :: traceabilityTable
  jiraTitle :: string
  prCategory :: string
  jiraComponents :: "string list"

text \<open>
  A \<^verbatim>\<open>match\<close> object of the component stage. The field \<^verbatim>\<open>matchedBy\<close>, a text that
  nothing reads, is left out.
\<close>

record componentHit =
  hitCase :: testCase
  jiraComponent :: string
  matchedTerm :: string
  matchedKeywords :: "string list option"
  matchedFileKeywords :: "string list option"

text \<open>
  An entry of the result: the test case with the fields the selector adds. An entry of
  the direct stage has no \<^verbatim>\<open>matchedComponent\<close> and no keyword lists; they are empty
  there.
\<close>

record impactedCase =
  ic_case :: testCase
  matchType :: string
  matchReason :: string
  matchedComponent :: string
  ic_keywords :: "string list"
  ic_fileKeywords :: "string list"
  ic_priority :: nat

abbreviation idOf :: "impactedCase \<Rightarrow> nat" where
  "idOf e \<equiv> tc_id (ic_case e)"

type_synonym sectionGroups = "(string \<times> impactedCase list) list"

record impactResult =
  directJiraMatch :: "impactedCase list"
  componentMatch :: "impactedCase list"
  componentWithKeywords :: "impactedCase list"
  allCases :: "impactedCase list"
  groupedByModule :: sectionGroups

datatype error = TypeError

definition categoryLimits :: "(string \<times> nat) list" where
  "categoryLimits =
     [(''Relaxed PR'', 20), (''Sleepy PR'', 30), (''Sarcastic PR'', 40),
      (''Overloaded PR'', 60), (''Angry PR'', 80)]"

definition maxTestCases :: "string \<Rightarrow> nat" where
  \<comment> \<open>\<^verbatim>\<open>categoryLimits[prCategory] || 50\<close>; the selector prints it and uses it nowhere else\<close>
  "maxTestCases cat = (case map_of categoryLimits cat of Some n \<Rightarrow> n | None \<Rightarrow> 50)"

fun keepUnseen :: "('a \<Rightarrow> nat) \<Rightarrow> nat list \<Rightarrow> 'a list \<Rightarrow> 'a list" where
  \<comment> \<open>the loop \<^verbatim>\<open>if (!seen.has(id)) { seen.add(id); out.push(x) }\<close>\<close>
  "keepUnseen key seen [] = []"
| "keepUnseen key seen (x # xs) =
     (if key x \<in> set seen then keepUnseen key seen xs
      else x # keepUnseen key (key x # seen) xs)"

definition refersTo :: "string \<Rightarrow> testCase \<Rightarrow> bool" where
  "refersTo jid tc = str_includes (toLowerCase (tc_refs tc)) (toLowerCase jid)"

definition directEntry :: "string \<Rightarrow> testCase \<Rightarrow> impactedCase" where
  "directEntry jid tc =
     \<lparr>ic_case = tc, matchType = ''jira_reference'',
      matchReason = ''Direct JIRA reference: '' @ jid, matchedComponent = [],
      ic_keywords = [], ic_fileKeywords = [], ic_priority = 1\<rparr>"

definition directStage :: "string \<Rightarrow> testCase list \<Rightarrow> impactedCase list" where
  \<comment> \<open>priority 1; an empty ticket id is falsy and skips the stage\<close>
  "directStage jid inventory =
     (if jid = [] then []
      else map (directEntry jid) (keepUnseen tc_id [] (filter (refersTo jid) inventory)))"

function splitFolders :: "string \<Rightarrow> string list" where
  \<comment> \<open>\<^verbatim>\<open>sectionPath.split(/\s*[>\<guillemotright>]\s*/)\<close> with U+203A for the second separator: at
      every position the expression takes the white space, one separator character and
      the white space after it\<close>
  "splitFolders [] = [[]]"
| "splitFolders (c # cs) =
     (case dropWhile isSpace (c # cs) of
        [] \<Rightarrow> consHead c (splitFolders cs)
      | d # rest \<Rightarrow>
          if d = CHR ''>'' \<or> d = CHR 0x9B then [] # splitFolders (dropWhile isSpace rest)
          else consHead c (splitFolders cs))"
  by pat_completeness auto
termination
proof (relation "measure length")
  show "wf (measure length)" by simp
next
  fix c cs
  show "(cs, c # cs) \<in> measure length" by simp
next
  fix c :: char and cs d rest
  assume a: "dropWhile isSpace (c # cs) = d # rest"
  have "length (dropWhile isSpace rest) \<le> length rest"
    by (rule length_dropWhile_le)
  moreover have "length (d # rest) \<le> length (c # cs)"
    using length_dropWhile_le [of isSpace "c # cs"] a by simp
  ultimately show "(dropWhile isSpace rest, c # cs) \<in> measure length"
    by simp
next
  fix c cs
  show "(cs, c # cs) \<in> measure length" by simp
qed

definition foldersOf :: "string \<Rightarrow> string list" where
  "foldersOf sp = filter (\<lambda>f. f \<noteq> []) (map trim (splitFolders sp))"

definition matchingTerm :: "string list \<Rightarrow> testCase \<Rightarrow> string option" where
  \<comment> \<open>the first search term, in order, that some folder of the case contains\<close>
  "matchingTerm terms tc =
     (let foldersLower = map toLowerCase (foldersOf (sectionPath tc))
      in find (\<lambda>searchTerm. list_ex (\<lambda>f. str_includes f searchTerm) foldersLower) terms)"

definition componentHits :: "traceabilityTable \<Rightarrow> testCase list \<Rightarrow> string \<Rightarrow> componentHit list" where
  \<comment> \<open>the body of \<^verbatim>\<open>jiraComponents.forEach\<close>: what one component adds to \<^verbatim>\<open>step1Matches\<close>\<close>
  "componentHits componentMapping inventory jiraComp =
     (let uniqueSearchTerms = searchTermsOf (componentTags jiraComp componentMapping)
      in concat (map (\<lambda>tc. case matchingTerm uniqueSearchTerms tc of
                             None \<Rightarrow> []
                           | Some term \<Rightarrow> [\<lparr>hitCase = tc, jiraComponent = jiraComp,
                                            matchedTerm = term, matchedKeywords = None,
                                            matchedFileKeywords = None\<rparr>]) inventory))"

definition keywordsIn :: "string list \<Rightarrow> testCase \<Rightarrow> string list" where
  \<comment> \<open>the keywords found in the section path or in the title of the case\<close>
  "keywordsIn kws tc =
     filter (\<lambda>kw. str_includes (toLowerCase (sectionPath tc)) (toLowerCase kw)
                 \<or> str_includes (toLowerCase (tc_title tc)) (toLowerCase kw)) kws"

definition titleKeywordFilter :: "string list \<Rightarrow> componentHit list \<Rightarrow> componentHit list" where
  \<comment> \<open>step 3; without keywords every match passes\<close>
  "titleKeywordFilter jiraTitleKeywords componentMatches =
     (if jiraTitleKeywords \<noteq> [] then
        concat (map (\<lambda>m. let kws = keywordsIn jiraTitleKeywords (hitCase m)
                          in if kws \<noteq> [] then [m\<lparr>matchedKeywords := Some kws\<rparr>] else [])
                    componentMatches)
      else componentMatches)"

definition fileNameOf :: "string \<Rightarrow> string" where
  \<comment> \<open>\<^verbatim>\<open>path.split(/[/\\]/).pop()\<close>\<close>
  "fileNameOf p = last (splitChar (\<lambda>c. c = CHR ''/'' \<or> c = CHR 0x5C) p)"

definition fileKeywordsOf :: "changedFile list \<Rightarrow> string list" where
  \<comment> \<open>\<^verbatim>\<open>uniqueFileKeywords\<close>\<close>
  "fileKeywordsOf files =
     uniq (concat (map (\<lambda>f. extractSignificantKeywords (fileNameOf (path f))) files))"

definition fileKeywordFilter :: "string list \<Rightarrow> componentHit list \<Rightarrow> componentHit list" where
  \<comment> \<open>step 4; without keywords every match passes\<close>
  "fileKeywordFilter uniqueFileKeywords step2Matches =
     (if uniqueFileKeywords \<noteq> [] then
        concat (map (\<lambda>m. let kws = keywordsIn uniqueFileKeywords (hitCase m)
                          in if kws \<noteq> [] then [m\<lparr>matchedFileKeywords := Some kws\<rparr>] else [])
                    step2Matches)
      else step2Matches)"

definition enrichedEntry :: "componentHit \<Rightarrow> impactedCase" where
  "enrichedEntry m =
     \<lparr>ic_case = hitCase m, matchType = ''component_with_keywords'',
      matchReason = ''Component: '' @ jiraComponent m
        @ (case matchedKeywords m of None \<Rightarrow> []
           | Some kws \<Rightarrow> '', JIRA Keywords: '' @ join '', '' kws)
        @ (case matchedFileKeywords m of None \<Rightarrow> []
           | Some kws \<Rightarrow> '', File Keywords: '' @ join '', '' kws),
      matchedComponent = jiraComponent m,
      ic_keywords = (case matchedKeywords m of None \<Rightarrow> [] | Some kws \<Rightarrow> kws),
      ic_fileKeywords = (case matchedFileKeywords m of None \<Rightarrow> [] | Some kws \<Rightarrow> kws),
      ic_priority = 3\<rparr>"

definition inheritedKeys :: "string list" where
  \<comment> \<open>the property names that the object literal \<^verbatim>\<open>{}\<close> inherits: read through
      \<^verbatim>\<open>groupedBySection[sectionPath]\<close> they are truthy and have no \<^verbatim>\<open>push\<close>\<close>
  "inheritedKeys =
     [''constructor'', ''__proto__'', ''hasOwnProperty'', ''isPrototypeOf'',
      ''propertyIsEnumerable'', ''toLocaleString'', ''toString'', ''valueOf'',
      ''__defineGetter__'', ''__defineSetter__'', ''__lookupGetter__'', ''__lookupSetter__'']"

definition pushGroup :: "string \<Rightarrow> impactedCase \<Rightarrow> sectionGroups \<Rightarrow> sectionGroups" where
  \<comment> \<open>\<^verbatim>\<open>groupedBySection[key].push(e)\<close>, a new key going to the end\<close>
  "pushGroup key e groups =
     (if key \<in> set (map fst groups)
      then map (\<lambda>(k, es). if k = key then (k, es @ [e]) else (k, es)) groups
      else groups @ [(key, [e])])"

fun buildResults ::
  "componentHit list \<Rightarrow> sectionGroups \<Rightarrow> nat list \<Rightarrow> impactedCase list
     \<Rightarrow> error + (sectionGroups \<times> impactedCase list)" where
  \<comment> \<open>\<^verbatim>\<open>finalMatches.forEach\<close>: groups every match by its section path and collects the
      cases not seen before; \<open>seen\<close> is \<^verbatim>\<open>seenCaseIds\<close>\<close>
  "buildResults [] groups seen found = Inr (groups, found)"
| "buildResults (m # ms) groups seen found =
     (let tc = hitCase m;
          key = (if sectionPath tc = [] then ''Unknown Section'' else sectionPath tc);
          enrichedTC = enrichedEntry m
      in if key \<in> set inheritedKeys then Inl TypeError
         else if tc_id tc \<in> set seen
           then buildResults ms (pushGroup key enrichedTC groups) seen found
           else buildResults ms (pushGroup key enrichedTC groups) (tc_id tc # seen)
                  (found @ [enrichedTC]))"

definition finalMatches :: "testCase list \<Rightarrow> impactOptions \<Rightarrow> componentHit list" where
  \<comment> \<open>steps 2 to 4 for a ticket with components\<close>
  "finalMatches inventory opts =
     (let step1Matches = concat (map (componentHits (traceabilityMatrix opts) inventory)
                                     (jiraComponents opts));
          componentMatches = keepUnseen (\<lambda>m. tc_id (hitCase m)) [] step1Matches;
          step2Matches = titleKeywordFilter (extractSignificantKeywords (jiraTitle opts))
                           componentMatches
      in fileKeywordFilter (fileKeywordsOf (changedFiles opts)) step2Matches)"

definition getImpactedTestCases :: "testCase list \<Rightarrow> impactOptions \<Rightarrow> error + impactResult" where
  "getImpactedTestCases inventory opts =
     (let direct = directStage (jiraId opts) inventory;
          seenCaseIds = rev (map (\<lambda>e. tc_id (ic_case e)) direct)
      in if jiraComponents opts \<noteq> [] then
           (case buildResults (finalMatches inventory opts) [] seenCaseIds [] of
              Inl e \<Rightarrow> Inl e
            | Inr (groupedBySection, found) \<Rightarrow>
                Inr \<lparr>directJiraMatch = direct, componentMatch = [],
                     componentWithKeywords = found, allCases = direct @ found,
                     groupedByModule = groupedBySection\<rparr>)
         else Inr \<lparr>directJiraMatch = direct, componentMatch = [], componentWithKeywords = [],
                   allCases = direct @ [], groupedByModule = []\<rparr>)"

section \<open>The relevance scorer: \<^verbatim>\<open>scoreRegressionTestsForRelevance\<close> of the TestRail service\<close>

function splitOn :: "string \<Rightarrow> string \<Rightarrow> string list" where
  \<comment> \<open>\<^verbatim>\<open>s.split(sep)\<close> for a separator string that is not empty\<close>
  "splitOn sep [] = [[]]"
| "splitOn sep (c # cs) =
     (if sep \<noteq> [] \<and> startsWith (c # cs) sep
      then [] # splitOn sep (drop (length sep) (c # cs))
      else consHead c (splitOn sep cs))"
  by pat_completeness auto
termination
  by (relation "measure (\<lambda>(sep, s). length s)") auto

definition stripExtension :: "string \<Rightarrow> string" where
  \<comment> \<open>\<^verbatim>\<open>s.replace(/\.[^/.]+$/, '')\<close>: removes a last dot with what follows it, when
      something follows and no slash does\<close>
  "stripExtension s =
     (let r = rev s;
          ext = takeWhile (\<lambda>c. c \<noteq> CHR ''.'' \<and> c \<noteq> CHR ''/'') r
      in case dropWhile (\<lambda>c. c \<noteq> CHR ''.'' \<and> c \<noteq> CHR ''/'') r of
           [] \<Rightarrow> s
         | d # rest \<Rightarrow> if d = CHR ''.'' \<and> ext \<noteq> [] then rev rest else s)"

definition fileStem :: "changedFile \<Rightarrow> string" where
  \<comment> \<open>\<^verbatim>\<open>file.path.split('/').pop().replace(/\.[^/.]+$/, '').toLowerCase()\<close>\<close>
  "fileStem f = toLowerCase (stripExtension (last (splitChar (\<lambda>c. c = CHR ''/'') (path f))))"

definition setKey :: "string \<Rightarrow> string \<Rightarrow> (string \<times> string) list \<Rightarrow> (string \<times> string) list" where
  \<comment> \<open>\<^verbatim>\<open>obj[k] = v\<close> for a string \<open>v\<close>: a known key keeps its place, a new one goes to the
      end, and the key \<^verbatim>\<open>__proto__\<close> stores nothing\<close>
  "setKey k v m =
     (if k = ''__proto__'' then m
      else if k \<in> set (map fst m) then map (\<lambda>(k', v'). if k' = k then (k', v) else (k', v')) m
      else m @ [(k, v)])"

definition tagToComponent :: "traceabilityTable \<Rightarrow> (string \<times> string) list" where
  "tagToComponent componentMap =
     foldl (\<lambda>m (componentName, tags). foldl (\<lambda>m' tag. setKey (toLowerCase tag) componentName m') m tags)
       [] componentMap"

definition mapFilesToFunctionalAreas :: "traceabilityTable \<Rightarrow> changedFile list \<Rightarrow> string list" where
  \<comment> \<open>the table is \<^verbatim>\<open>config.traceabilityMatrix.components\<close>, which the function loads\<close>
  "mapFilesToFunctionalAreas componentMap files =
     uniq (concat (map (\<lambda>file. map snd (filter (\<lambda>(tag, componentName).
                                   str_includes (toLowerCase (path file)) tag)
                                 (tagToComponent componentMap))) files))"

record fileTypeCounts =
  ft_html :: nat
  ft_ts :: nat
  ft_js :: nat
  ft_css :: nat
  ft_java :: nat
  ft_both :: bool

record prContext =
  uiElements :: "string list"
  behaviors :: "string list"
  isBugFix :: bool
  fileTypes :: fileTypeCounts

fun boundedOccurs :: "string \<Rightarrow> bool \<Rightarrow> bool \<Rightarrow> string \<Rightarrow> bool" where
  \<comment> \<open>\<^verbatim>\<open>/\bpat/\<close>, and \<^verbatim>\<open>/\bpat\b/\<close> when \<open>rightB\<close> holds, for a pattern of word
      characters; \<open>prevIsWord\<close> tells whether a word character stands before the text\<close>
  "boundedOccurs pat rightB prevIsWord [] = False"
| "boundedOccurs pat rightB prevIsWord (c # cs) =
     ((\<not> prevIsWord \<and> startsWith (c # cs) pat
        \<and> (if rightB then (case drop (length pat) (c # cs) of [] \<Rightarrow> True
                                                       | d # ds \<Rightarrow> \<not> isWordChar d)
            else True))
      \<or> boundedOccurs pat rightB (isWordChar c) cs)"

definition looksLikeBugFix :: "string \<Rightarrow> bool" where
  \<comment> \<open>\<^verbatim>\<open>/^fix\(|\bfix:|\bbug\b|\bbugfix\b|\bissue\b/.test(titleLower)\<close>\<close>
  "looksLikeBugFix titleLower =
     (startsWith titleLower ''fix('' \<or> boundedOccurs ''fix:'' False False titleLower
      \<or> boundedOccurs ''bug'' True False titleLower
      \<or> boundedOccurs ''bugfix'' True False titleLower
      \<or> boundedOccurs ''issue'' True False titleLower)"

definition uiElementPatterns :: "string list" where
  "uiElementPatterns =
     [''button'', ''submit'', ''dropdown'', ''checkbox'', ''radio'', ''input'', ''field'',
      ''form'', ''modal'', ''dialog'', ''popup'', ''menu'', ''tab'', ''panel'', ''table'',
      ''grid'', ''list'', ''card'', ''link'', ''icon'', ''image'', ''tooltip'',
      ''notification'']"

definition behaviorPatterns :: "string list" where
  "behaviorPatterns =
     [''always available'', ''always visible'', ''always enabled'', ''disabled'', ''enabled'',
      ''hidden'', ''visible'', ''validation'', ''required'', ''optional'', ''mandatory'',
      ''editable'', ''readonly'', ''clickable'', ''selectable'', ''expandable'',
      ''collapsible'', ''loading'', ''error'', ''success'', ''warning'', ''submitted'',
      ''saved'', ''deleted'']"

definition countFiles :: "(string \<Rightarrow> bool) \<Rightarrow> changedFile list \<Rightarrow> nat" where
  "countFiles P files = length (filter (\<lambda>file. P (toLowerCase (path file))) files)"

definition extractPRContext :: "string \<Rightarrow> string \<Rightarrow> changedFile list \<Rightarrow> prContext" where
  "extractPRContext title description files =
     (let titleLower = toLowerCase title;
          descLower = toLowerCase description;
          combined = titleLower @ '' '' @ descLower;
          html = countFiles (\<lambda>p. endsWith p ''.html'' \<or> endsWith p ''.htm'') files;
          ts = countFiles (\<lambda>p. endsWith p ''.ts'') files;
          js = countFiles (\<lambda>p. endsWith p ''.js'' \<or> endsWith p ''.jsx'') files;
          css = countFiles (\<lambda>p. endsWith p ''.css'' \<or> endsWith p ''.scss''
                                  \<or> endsWith p ''.sass'') files;
          java = countFiles (\<lambda>p. endsWith p ''.java'') files
      in \<lparr>uiElements = filter (str_includes combined) uiElementPatterns,
          behaviors = filter (str_includes combined) behaviorPatterns,
          isBugFix = looksLikeBugFix titleLower,
          fileTypes = \<lparr>ft_html = html, ft_ts = ts, ft_js = js, ft_css = css, ft_java = java,
                        ft_both = (html > 0 \<and> (ts > 0 \<or> js > 0 \<or> java > 0))\<rparr>\<rparr>)"

definition calculateFileTypeRelevance :: "fileTypeCounts \<Rightarrow> string \<Rightarrow> int" where
  "calculateFileTypeRelevance ft testTitle =
     (let bonus = 0;
          bonus = (if ft_html ft > 0 \<and> ft_ts ft = 0 \<and> ft_js ft = 0 \<and> ft_java ft = 0
                     \<and> list_ex (str_includes testTitle)
                          [''display'', ''render'', ''visible'', ''shown'', ''appear'', ''ui'',
                           ''layout'', ''screen'']
                   then 20 else bonus);
          bonus = (if (ft_ts ft > 0 \<or> ft_js ft > 0 \<or> ft_java ft > 0) \<and> ft_html ft = 0
                     \<and> list_ex (str_includes testTitle)
                          [''validate'', ''calculate'', ''process'', ''save'', ''submit'', ''api'',
                           ''service'', ''logic'', ''function'']
                   then 20 else bonus);
          bonus = (if ft_both ft then
                     (if list_ex (str_includes testTitle)
                           [''integration'', ''end-to-end'', ''e2e'', ''workflow'', ''complete'',
                            ''full'']
                      then 30
                      else if str_includes testTitle ''verify'' \<or> str_includes testTitle ''test''
                      then 15 else bonus)
                   else bonus)
      in bonus)"

definition getSectionPathDepth :: "testCase \<Rightarrow> nat" where
  "getSectionPathDepth tc =
     (if sectionPath tc \<noteq> [] then length (splitOn '' > '' (sectionPath tc)) else 0)"

definition checkSectionPathMatch :: "testCase \<Rightarrow> string list \<Rightarrow> string list \<Rightarrow> int" where
  \<comment> \<open>the \<^verbatim>\<open>score\<close> of the result; the \<^verbatim>\<open>reason\<close> text is left out\<close>
  "checkSectionPathMatch tc components functionalAreas =
     (if sectionPath tc = [] then 0
      else let pathParts = splitOn '' > '' (toLowerCase (sectionPath tc))
           in if length pathParts < 2 then 0
              else let componentMatch =
                         list_ex (\<lambda>comp. list_ex (\<lambda>part. str_includes part (toLowerCase comp))
                                           pathParts) components;
                       areaMatch =
                         list_ex (\<lambda>area. list_ex (\<lambda>part. str_includes part (toLowerCase area))
                                           pathParts) functionalAreas
                   in if areaMatch \<and> \<not> componentMatch then 25
                      else if componentMatch then 30 else 0)"

definition isGenericTest :: "string \<Rightarrow> string list \<Rightarrow> bool" where
  "isGenericTest testTitle components =
     (let titleWords = splitRuns isSpace (toLowerCase testTitle);
          hasSpecificKeyword =
            list_ex (str_includes testTitle)
              [''form'', ''button'', ''field'', ''page'', ''screen'', ''api'', ''endpoint'',
               ''submit'', ''save'', ''delete'', ''update'', ''create'', ''validate'',
               ''search'', ''filter'', ''sort'', ''export'', ''import'', ''upload'',
               ''download'']
      in if \<not> hasSpecificKeyword
         then list_ex (\<lambda>comp. str_includes testTitle (toLowerCase comp)
                               \<and> length titleWords < 8) components
         else False)"

definition determinePRType :: "nat \<Rightarrow> string" where
  "determinePRType n =
     (if n \<le> 2 then ''Relaxed'' else if n \<le> 5 then ''Sleepy'' else if n \<le> 10 then ''Sarcastic''
      else if n \<le> 20 then ''Overloaded'' else ''Angry'')"

definition getMaxTestsForPRSize :: "nat \<Rightarrow> nat" where
  "getMaxTestsForPRSize n =
     (if n \<le> 2 then 10 else if n \<le> 5 then 15 else if n \<le> 10 then 20
      else if n \<le> 20 then 40 else 60)"

text \<open>
  What the scorer computes once for a run, before it visits the test cases.
\<close>

record scoringContext =
  sc_files :: "changedFile list"
  sc_components :: "string list"
  sc_keywords :: "string list"
  sc_areas :: "string list"
  sc_shared :: bool
  sc_pr :: prContext

definition hasSharedComponentImpact :: "changedFile list \<Rightarrow> bool" where
  "hasSharedComponentImpact files =
     list_ex (\<lambda>f. let p = toLowerCase (path f)
                   in str_includes p ''shared'' \<or> str_includes p ''core''
                      \<or> str_includes p ''common'' \<or> str_includes p ''utils''
                      \<or> str_includes p ''service'' \<or> str_includes p ''api'') files"

definition scoringContextOf ::
  "traceabilityTable \<Rightarrow> changedFile list \<Rightarrow> string list \<Rightarrow> string list \<Rightarrow> string \<Rightarrow> string
     \<Rightarrow> scoringContext" where
  "scoringContextOf componentMap files components keywords title description =
     \<lparr>sc_files = files, sc_components = components, sc_keywords = keywords,
      sc_areas = mapFilesToFunctionalAreas componentMap files,
      sc_shared = hasSharedComponentImpact files,
      sc_pr = extractPRContext title description files\<rparr>"

definition points :: "int \<Rightarrow> ('a \<Rightarrow> bool) \<Rightarrow> 'a list \<Rightarrow> int" where
  \<comment> \<open>a \<^verbatim>\<open>forEach\<close> that adds \<open>p\<close> to the score for every element that passes the test\<close>
  "points p test xs = p * int (length (filter test xs))"

definition sectionSignals :: "scoringContext \<Rightarrow> testCase \<Rightarrow> int" where
  \<comment> \<open>block 1: component, area, file and keyword in a folder of the section path\<close>
  "sectionSignals ctx tc =
     (if sectionPath tc \<noteq> [] then
        (let pathParts = map trim (splitOn '' > '' (toLowerCase (sectionPath tc)));
             inPath = (\<lambda>w. list_ex (\<lambda>part. str_includes part w) pathParts)
         in points 35 (\<lambda>comp. inPath (toLowerCase comp)) (sc_components ctx)
            + points 30 (\<lambda>area. inPath (toLowerCase area)) (sc_areas ctx)
            + points 25 (\<lambda>file. length (fileStem file) > 3 \<and> inPath (fileStem file)) (sc_files ctx)
            + points 20 (\<lambda>kw. inPath (toLowerCase kw)) (sc_keywords ctx))
      else 0)"

definition titleSignals :: "scoringContext \<Rightarrow> string \<Rightarrow> int" where
  \<comment> \<open>blocks 2 to 5: area, component word, keyword and file name in the title\<close>
  "titleSignals ctx title =
     points 40 (\<lambda>area. str_includes title (toLowerCase area)) (sc_areas ctx)
     + points 30 (\<lambda>word. length word > 3 \<and> str_includes title word)
         (concat (map (\<lambda>comp. splitRuns isSpace (toLowerCase comp)) (sc_components ctx)))
     + points 20 (\<lambda>kw. str_includes title (toLowerCase kw)) (sc_keywords ctx)
     + points 35 (\<lambda>file. length (fileStem file) > 3 \<and> str_includes title (fileStem file))
         (sc_files ctx)"

definition patternSignals :: "scoringContext \<Rightarrow> string \<Rightarrow> int" where
  \<comment> \<open>block 6: API and UI words of the case against the changed paths\<close>
  "patternSignals ctx searchText =
     points 20 (\<lambda>(pattern, file). str_includes (toLowerCase (path file)) pattern
                                  \<or> str_includes (toLowerCase (path file)) ''api'')
       (concat (map (\<lambda>pattern. map (\<lambda>file. (pattern, file)) (sc_files ctx))
                  (filter (str_includes searchText)
                     [''api'', ''endpoint'', ''service'', ''rest'', ''graphql''])))
     + points 20 (\<lambda>(pattern, file). str_includes (toLowerCase (path file)) ''component''
                                    \<or> str_includes (toLowerCase (path file)) ''view''
                                    \<or> str_includes (toLowerCase (path file)) ''.html'')
         (concat (map (\<lambda>pattern. map (\<lambda>file. (pattern, file)) (sc_files ctx))
                    (filter (str_includes searchText)
                       [''screen'', ''page'', ''view'', ''component'', ''modal'', ''dialog''])))"

definition criticalSignal :: "scoringContext \<Rightarrow> testCase \<Rightarrow> string \<Rightarrow> int" where
  "criticalSignal ctx tc title =
     (let isCritical = (str_includes title ''smoke'' \<or> str_includes title ''critical''
                        \<or> str_includes title ''p0'' \<or> str_includes title ''p1''
                        \<or> (case priority_id tc of None \<Rightarrow> False
                            | Some p \<Rightarrow> p \<noteq> 0 \<and> p \<le> 2))
      in if isCritical \<and> sc_shared ctx then 50 else if isCritical then 10 else 0)"

definition contextSignal :: "prContext \<Rightarrow> string \<Rightarrow> int" where
  \<comment> \<open>block 8: interface elements and behaviours named by the pull request\<close>
  "contextSignal pr title =
     (if uiElements pr \<noteq> [] \<or> behaviors pr \<noteq> [] then
        (let elementMatches = filter (str_includes title) (uiElements pr);
             behaviorMatches = filter (str_includes title) (behaviors pr);
             contextScore = 20 * int (length elementMatches) + 15 * int (length behaviorMatches);
             contextScore = (if length elementMatches + length behaviorMatches \<ge> 2
                             then contextScore + 20 else contextScore)
         in min contextScore 40)
      else 0)"

definition bugFixSignal :: "scoringContext \<Rightarrow> string \<Rightarrow> int" where
  "bugFixSignal ctx title =
     (if isBugFix (sc_pr ctx) then
        (if list_ex (str_includes title)
              [''should not'', ''prevent'', ''disable'', ''block'', ''reject'', ''invalid'',
               ''error'', ''validation'', ''verify'', ''edge case'']
         then 25 else 0)
        + (if list_ex (\<lambda>comp. str_includes title (toLowerCase comp)) (sc_components ctx)
              \<and> str_includes title ''regression''
           then 30 else 0)
      else 0)"

definition sectionDepthSignal :: "scoringContext \<Rightarrow> testCase \<Rightarrow> string \<Rightarrow> int" where
  \<comment> \<open>block 11, for a case with a truthy \<^verbatim>\<open>section_id\<close>\<close>
  "sectionDepthSignal ctx tc title =
     (case section_id tc of
        None \<Rightarrow> 0
      | Some sid \<Rightarrow>
          if sid = 0 then 0
          else let sectionPathDepth = getSectionPathDepth tc
               in if sectionPathDepth \<ge> 2
                  then checkSectionPathMatch tc (sc_components ctx) (sc_areas ctx)
                  else if sectionPathDepth = 1 \<and> isGenericTest title (sc_components ctx)
                  then - 20 else 0)"

definition searchTextOf :: "testCase \<Rightarrow> string" where
  \<comment> \<open>\<^verbatim>\<open>searchText\<close>: the title, the references and the custom fields in lower case\<close>
  "searchTextOf tc =
     toLowerCase (tc_title tc) @ '' '' @ toLowerCase (tc_refs tc) @ '' ''
       @ toLowerCase (custom_fields tc)"

definition signalSum :: "scoringContext \<Rightarrow> testCase \<Rightarrow> string \<Rightarrow> string \<Rightarrow> int" where
  \<comment> \<open>the variable \<^verbatim>\<open>score\<close> after block 11, for the lower-case \<open>title\<close> and the
      \<open>searchText\<close> of the case\<close>
  "signalSum ctx tc title searchText =
     sectionSignals ctx tc
     + titleSignals ctx title
     + patternSignals ctx searchText
     + criticalSignal ctx tc title
     + points 5 (\<lambda>kw. \<not> str_includes title (toLowerCase kw)
                      \<and> str_includes searchText (toLowerCase kw)) (sc_keywords ctx)
     + contextSignal (sc_pr ctx) title
     + bugFixSignal ctx title
     + calculateFileTypeRelevance (fileTypes (sc_pr ctx)) title
     + sectionDepthSignal ctx tc title"

definition genericPenalty :: "scoringContext \<Rightarrow> string \<Rightarrow> int \<Rightarrow> int" where
  \<comment> \<open>block 12\<close>
  "genericPenalty ctx title score =
     (if isGenericTest title (sc_components ctx) \<and> score < 50 then score - 20 else score)"

definition scoreBeforeClamp :: "scoringContext \<Rightarrow> testCase \<Rightarrow> int" where
  \<comment> \<open>the variable \<^verbatim>\<open>score\<close> when the loop body reaches the clamp\<close>
  "scoreBeforeClamp ctx tc =
     genericPenalty ctx (toLowerCase (tc_title tc))
       (signalSum ctx tc (toLowerCase (tc_title tc)) (searchTextOf tc))"

definition relevanceOf :: "scoringContext \<Rightarrow> testCase \<Rightarrow> int" where
  \<comment> \<open>\<^verbatim>\<open>Math.min(Math.max(score, 0), 100)\<close>\<close>
  "relevanceOf ctx tc = min (max (scoreBeforeClamp ctx tc) 0) 100"

text \<open>
  An element of \<^verbatim>\<open>scoredTests\<close>, and of the returned list, where the score is the field
  \<^verbatim>\<open>relevanceScore\<close> added to the test case. The texts of \<^verbatim>\<open>matchDetails\<close> are left out.
\<close>

record scoredTest =
  st_case :: testCase
  relevanceScore :: int

definition scoredTests :: "scoringContext \<Rightarrow> testCase list \<Rightarrow> scoredTest list" where
  \<comment> \<open>the cases with a positive score, then the stable sort by descending score\<close>
  "scoredTests ctx regressionTests =
     sort_key (\<lambda>st. - relevanceScore st)
       (filter (\<lambda>st. relevanceScore st > 0)
          (map (\<lambda>tc. \<lparr>st_case = tc, relevanceScore = relevanceOf ctx tc\<rparr>) regressionTests))"

definition relevantTests :: "scoredTest list \<Rightarrow> scoredTest list" where
  \<comment> \<open>the thresholds 60, 40 and 25 in turn, then the ten best\<close>
  "relevantTests scored =
     (let relevant = filter (\<lambda>st. relevanceScore st \<ge> 60) scored;
          relevant = (if relevant = [] \<and> scored \<noteq> []
                      then filter (\<lambda>st. relevanceScore st \<ge> 40) scored else relevant);
          relevant = (if relevant = [] \<and> scored \<noteq> []
                      then filter (\<lambda>st. relevanceScore st \<ge> 25) scored else relevant);
          relevant = (if relevant = [] \<and> scored \<noteq> [] then take 10 scored else relevant)
      in relevant)"

definition scoreRegressionTestsForRelevance ::
  "traceabilityTable \<Rightarrow> testCase list \<Rightarrow> changedFile list \<Rightarrow> string list \<Rightarrow> string list
     \<Rightarrow> string \<Rightarrow> string \<Rightarrow> scoredTest list" where
  "scoreRegressionTestsForRelevance componentMap regressionTests files components keywords
       title description =
     take (getMaxTestsForPRSize (length files))
       (relevantTests
          (scoredTests (scoringContextOf componentMap files components keywords title description)
             regressionTests))"

section \<open>Sample data\<close>

definition webformCase :: testCase where
  "webformCase =
     \<lparr>tc_id = 1,
      tc_title = ''Verify webform submit button disabled when required fields empty'',
      tc_refs = ''PROJ-12, proj-7'', sectionPath = ''Forms > Applicant > Webform'',
      section_id = Some 4, priority_id = Some 2, custom_fields = ''{}''\<rparr>"

definition loginCase :: testCase where
  "loginCase =
     \<lparr>tc_id = 2, tc_title = ''Login works'', tc_refs = [], sectionPath = ''Auth > Login'',
      section_id = Some 5, priority_id = None, custom_fields = ''{}''\<rparr>"

definition emailCase :: testCase where
  "emailCase =
     \<lparr>tc_id = 3, tc_title = ''Webform validation of email'', tc_refs = [],
      sectionPath = ''Forms > Webform'', section_id = Some 6, priority_id = None,
      custom_fields = ''{}''\<rparr>"

definition sampleCases :: "testCase list" where
  "sampleCases = [webformCase, loginCase, emailCase]"

definition sampleOptions :: impactOptions where
  "sampleOptions =
     \<lparr>jiraId = ''PROJ-7'',
      changedFiles = [\<lparr>path = ''src/app/webform/webform.component.ts'', linesAdded = 3,
                       linesRemoved = 1\<rparr>],
      traceabilityMatrix = [(''Webform'', [''webform'', ''form-submission''])],
      jiraTitle = ''Webform submit button'', prCategory = ''Relaxed PR'',
      jiraComponents = [''Applicant-Webform'']\<rparr>"

definition manyCases :: "testCase list" where
  \<comment> \<open>twenty-one cases that all refer to the ticket of the sample options\<close>
  "manyCases = map (\<lambda>i. \<lparr>tc_id = i, tc_title = ''Login works'', tc_refs = ''PROJ-7'',
        sectionPath = ''Auth > Login'', section_id = Some 5, priority_id = None,
        custom_fields = ''{}''\<rparr>) [1..<22]"

definition smokeCase :: testCase where
  "smokeCase =
     \<lparr>tc_id = 1, tc_title = ''Smoke: save form'', tc_refs = [], sectionPath = ''UI > Form'',
      section_id = Some 1, priority_id = Some 1, custom_fields = ''{}''\<rparr>"

definition genericCase :: testCase where
  "genericCase =
     \<lparr>tc_id = 2, tc_title = ''Login'', tc_refs = [], sectionPath = ''Regression'',
      section_id = Some 2, priority_id = None, custom_fields = ''{}''\<rparr>"

definition gridCase :: testCase where
  "gridCase =
     \<lparr>tc_id = 3, tc_title = ''Grid sort'', tc_refs = [], sectionPath = ''UI > Form'',
      section_id = Some 1, priority_id = None, custom_fields = ''{}''\<rparr>"

definition formFiles :: "changedFile list" where
  "formFiles = [\<lparr>path = ''api/form.ts'', linesAdded = 3, linesRemoved = 1\<rparr>]"

definition formContext :: scoringContext where
  "formContext = scoringContextOf [] formFiles [''Form'', ''Login''] [] ''Tidy'' []"

section \<open>Verified properties\<close>

subsection \<open>The change classifier\<close>

text \<open>
  Claim C4, as stated, fails: its third rule compares the risk score, which the
  classifier returns rounded, but the code compares the value before rounding. Five
  files, three of them under \<open>core\<close> or \<open>shared\<close>, with 1005 changed lines under the
  title "Rework engine" have the value 85.25: the returned score is 85, no more than
  three shared files are touched and the title names no small change, so the rules as
  stated go on to Angry, yet the category is Overloaded.
\<close>

theorem analyzePR_rounded_score_counterexample:
  "category (analyzePR \<lparr>prTitle = ''Rework engine''\<rparr>
      [\<lparr>path = ''src/core/engine.ts'', linesAdded = 150, linesRemoved = 51\<rparr>,
       \<lparr>path = ''src/core/queue.ts'', linesAdded = 150, linesRemoved = 51\<rparr>,
       \<lparr>path = ''src/shared/types.ts'', linesAdded = 150, linesRemoved = 51\<rparr>,
       \<lparr>path = ''src/app/run.ts'', linesAdded = 150, linesRemoved = 51\<rparr>,
       \<lparr>path = ''src/app/main.ts'', linesAdded = 150, linesRemoved = 51\<rparr>]) = ''Overloaded PR''
   \<and> riskScore (analyzePR \<lparr>prTitle = ''Rework engine''\<rparr>
      [\<lparr>path = ''src/core/engine.ts'', linesAdded = 150, linesRemoved = 51\<rparr>,
       \<lparr>path = ''src/core/queue.ts'', linesAdded = 150, linesRemoved = 51\<rparr>,
       \<lparr>path = ''src/shared/types.ts'', linesAdded = 150, linesRemoved = 51\<rparr>,
       \<lparr>path = ''src/app/run.ts'', linesAdded = 150, linesRemoved = 51\<rparr>,
       \<lparr>path = ''src/app/main.ts'', linesAdded = 150, linesRemoved = 51\<rparr>]) = 85
   \<and> metrics (analyzePR \<lparr>prTitle = ''Rework engine''\<rparr>
      [\<lparr>path = ''src/core/engine.ts'', linesAdded = 150, linesRemoved = 51\<rparr>,
       \<lparr>path = ''src/core/queue.ts'', linesAdded = 150, linesRemoved = 51\<rparr>,
       \<lparr>path = ''src/shared/types.ts'', linesAdded = 150, linesRemoved = 51\<rparr>,
       \<lparr>path = ''src/app/run.ts'', linesAdded = 150, linesRemoved = 51\<rparr>,
       \<lparr>path = ''src/app/main.ts'', linesAdded = 150, linesRemoved = 51\<rparr>])
       = \<lparr>filesChanged = 5, linesChanged = 1005, sharedComponents = 3,
          onlyStyleChanges = False\<rparr>
   \<and> \<not> titleSaysMinor (toLowerCase ''Rework engine'')"
proof -
  let ?pr = "\<lparr>prTitle = ''Rework engine''\<rparr>"
  let ?fs = "[\<lparr>path = ''src/core/engine.ts'', linesAdded = 150, linesRemoved = 51\<rparr>,
       \<lparr>path = ''src/core/queue.ts'', linesAdded = 150, linesRemoved = 51\<rparr>,
       \<lparr>path = ''src/shared/types.ts'', linesAdded = 150, linesRemoved = 51\<rparr>,
       \<lparr>path = ''src/app/run.ts'', linesAdded = 150, linesRemoved = 51\<rparr>,
       \<lparr>path = ''src/app/main.ts'', linesAdded = 150, linesRemoved = 51\<rparr>]"
  have lines: "totalLinesOf ?fs = 1005"
    by code_simp
  have shared: "length (filter touchesShared ?fs) = 3"
    by code_simp
  have style: "\<not> list_all isStyleFile ?fs"
    by code_simp
  have minor: "\<not> titleSaysMinor (toLowerCase ''Rework engine'')"
    by code_simp
  have raw: "rawRiskScore 5 3 1005 = 341 / 4"
    by (simp add: rawRiskScore_def)
  have rnd: "mathRound (rawRiskScore 5 3 1005) = 85"
    unfolding raw mathRound_def by linarith
  have len: "length ?fs = 5"
    by simp
  have cat: "category (analyzePR ?pr ?fs) = ''Overloaded PR''"
    unfolding analyzePR_def Let_def len lines shared using style minor raw by simp
  have score: "riskScore (analyzePR ?pr ?fs) = 85"
    unfolding analyzePR_def Let_def len lines shared using rnd by simp
  have met: "metrics (analyzePR ?pr ?fs)
       = \<lparr>filesChanged = 5, linesChanged = 1005, sharedComponents = 3,
          onlyStyleChanges = False\<rparr>"
    unfolding analyzePR_def Let_def len lines shared using style by simp
  show ?thesis
    using cat score met minor by (intro conjI)
qed

text \<open>
  Claim C4, amended. \<^verbatim>\<open>analyzePR\<close> decides the category by precedence, the first rule
  that matches winning: every changed file is a style file gives Sleepy; else a title
  with minor, quick, small or fix on more than 5 files or more than 100 changed lines
  gives Sarcastic; else more than 3 shared files or a risk score that is above 85
  before it is rounded gives Overloaded; else more than 10 files or more than 500 lines
  gives Angry; else Relaxed. Three files, not all of them style files, with 250 changed
  lines under the title "Quick fix for login" are Sarcastic.
\<close>

theorem analyzePR_category_precedence:
  "(list_all isStyleFile files \<longrightarrow> category (analyzePR pr files) = ''Sleepy PR'')
   \<and> (\<not> list_all isStyleFile files
        \<and> titleSaysMinor (toLowerCase (prTitle pr))
        \<and> (length files > 5 \<or> totalLinesOf files > 100)
      \<longrightarrow> category (analyzePR pr files) = ''Sarcastic PR'')
   \<and> (\<not> list_all isStyleFile files
        \<and> \<not> (titleSaysMinor (toLowerCase (prTitle pr))
               \<and> (length files > 5 \<or> totalLinesOf files > 100))
        \<and> (length (filter touchesShared files) > 3
             \<or> rawRiskScore (length files) (length (filter touchesShared files))
                  (totalLinesOf files) > 85)
      \<longrightarrow> category (analyzePR pr files) = ''Overloaded PR'')
   \<and> (\<not> list_all isStyleFile files
        \<and> \<not> (titleSaysMinor (toLowerCase (prTitle pr))
               \<and> (length files > 5 \<or> totalLinesOf files > 100))
        \<and> \<not> (length (filter touchesShared files) > 3
               \<or> rawRiskScore (length files) (length (filter touchesShared files))
                    (totalLinesOf files) > 85)
        \<and> (length files > 10 \<or> totalLinesOf files > 500)
      \<longrightarrow> category (analyzePR pr files) = ''Angry PR'')
   \<and> (\<not> list_all isStyleFile files
        \<and> \<not> (titleSaysMinor (toLowerCase (prTitle pr))
               \<and> (length files > 5 \<or> totalLinesOf files > 100))
        \<and> \<not> (length (filter touchesShared files) > 3
               \<or> rawRiskScore (length files) (length (filter touchesShared files))
                    (totalLinesOf files) > 85)
        \<and> \<not> (length files > 10 \<or> totalLinesOf files > 500)
      \<longrightarrow> category (analyzePR pr files) = ''Relaxed PR'')
   \<and> (length files = 3 \<and> totalLinesOf files = 250 \<and> \<not> list_all isStyleFile files
        \<and> prTitle pr = ''Quick fix for login''
      \<longrightarrow> category (analyzePR pr files) = ''Sarcastic PR'')"
proof -
  have minor: "titleSaysMinor (toLowerCase ''Quick fix for login'')"
    by code_simp
  show ?thesis
    using minor by (auto simp: analyzePR_def Let_def)
qed

text \<open>
  The amended claim at the scenario of the spec, and at a change of one stylesheet.
\<close>

theorem analyzePR_category_precedence_witness:
  "category (analyzePR \<lparr>prTitle = ''Quick fix for login''\<rparr>
      [\<lparr>path = ''src/login/login.service.ts'', linesAdded = 120, linesRemoved = 30\<rparr>,
       \<lparr>path = ''src/login/login.component.ts'', linesAdded = 60, linesRemoved = 20\<rparr>,
       \<lparr>path = ''src/login/login.component.html'', linesAdded = 15, linesRemoved = 5\<rparr>])
     = ''Sarcastic PR''
   \<and> category (analyzePR \<lparr>prTitle = ''Restyle header''\<rparr>
      [\<lparr>path = ''src/theme/header.scss'', linesAdded = 12, linesRemoved = 3\<rparr>]) = ''Sleepy PR''"
proof -
  let ?pr = "\<lparr>prTitle = ''Quick fix for login''\<rparr>"
  let ?fs = "[\<lparr>path = ''src/login/login.service.ts'', linesAdded = 120, linesRemoved = 30\<rparr>,
       \<lparr>path = ''src/login/login.component.ts'', linesAdded = 60, linesRemoved = 20\<rparr>,
       \<lparr>path = ''src/login/login.component.html'', linesAdded = 15, linesRemoved = 5\<rparr>]"
  let ?pr2 = "\<lparr>prTitle = ''Restyle header''\<rparr>"
  let ?fs2 = "[\<lparr>path = ''src/theme/header.scss'', linesAdded = 12, linesRemoved = 3\<rparr>]"
  have h: "length ?fs = 3 \<and> totalLinesOf ?fs = 250 \<and> \<not> list_all isStyleFile ?fs
        \<and> prTitle ?pr = ''Quick fix for login''"
    by code_simp
  have h2: "list_all isStyleFile ?fs2"
    by code_simp
  show ?thesis
    using h h2 analyzePR_category_precedence [of ?fs ?pr]
      analyzePR_category_precedence [of ?fs2 ?pr2]
    by blast
qed

text \<open>
  Claim C5, as stated, fails: ten files outside the shared directories with 390 changed
  lines have the score 29.5, which is returned rounded to 30 while the level, decided
  before the rounding, is Low.
\<close>

theorem analyzePR_risk_level_counterexample:
  "riskScore (analyzePR \<lparr>prTitle = ''Add audit export''\<rparr>
      (replicate 10 \<lparr>path = ''src/audit/export.ts'', linesAdded = 30, linesRemoved = 9\<rparr>)) = 30
   \<and> riskLevel (analyzePR \<lparr>prTitle = ''Add audit export''\<rparr>
      (replicate 10 \<lparr>path = ''src/audit/export.ts'', linesAdded = 30, linesRemoved = 9\<rparr>)) = ''Low''"
  by code_simp

text \<open>
  Claim C5, amended. The returned \<open>riskScore\<close> is the rounded value of
  \<open>min(100, files + 10 * shared + 0.05 * lines)\<close>; the level is decided on the value
  before rounding: Low below 30, Medium from 30 and below 70, High from 70. Fifteen
  files, none shared, with 300 changed lines have the score 30 and the level Medium.
\<close>

theorem analyzePR_risk:
  "riskScore (analyzePR pr files)
     = mathRound (min 100 (of_nat (length files) * 1
                           + of_nat (length (filter touchesShared files)) * 10
                           + of_nat (totalLinesOf files) * (5 / 100)))
   \<and> (rawRiskScore (length files) (length (filter touchesShared files)) (totalLinesOf files) < 30
        \<longrightarrow> riskLevel (analyzePR pr files) = ''Low'')
   \<and> (30 \<le> rawRiskScore (length files) (length (filter touchesShared files)) (totalLinesOf files)
        \<and> rawRiskScore (length files) (length (filter touchesShared files)) (totalLinesOf files) < 70
        \<longrightarrow> riskLevel (analyzePR pr files) = ''Medium'')
   \<and> (70 \<le> rawRiskScore (length files) (length (filter touchesShared files)) (totalLinesOf files)
        \<longrightarrow> riskLevel (analyzePR pr files) = ''High'')
   \<and> (length files = 15 \<and> length (filter touchesShared files) = 0 \<and> totalLinesOf files = 300
        \<longrightarrow> riskScore (analyzePR pr files) = 30 \<and> riskLevel (analyzePR pr files) = ''Medium'')"
proof -
  have raw: "rawRiskScore 15 0 300 = 30"
    by (simp add: rawRiskScore_def)
  have rnd: "mathRound 30 = 30"
    unfolding mathRound_def by linarith
  have rounded: "riskScore (analyzePR pr files)
     = mathRound (min 100 (of_nat (length files) * 1
                           + of_nat (length (filter touchesShared files)) * 10
                           + of_nat (totalLinesOf files) * (5 / 100)))"
    by (simp add: analyzePR_def Let_def rawRiskScore_def)
  have low: "rawRiskScore (length files) (length (filter touchesShared files))
                (totalLinesOf files) < 30
        \<longrightarrow> riskLevel (analyzePR pr files) = ''Low''"
    by (simp add: analyzePR_def Let_def)
  have medium: "30 \<le> rawRiskScore (length files) (length (filter touchesShared files))
                (totalLinesOf files)
        \<and> rawRiskScore (length files) (length (filter touchesShared files))
                (totalLinesOf files) < 70
        \<longrightarrow> riskLevel (analyzePR pr files) = ''Medium''"
    by (simp add: analyzePR_def Let_def)
  have high: "70 \<le> rawRiskScore (length files) (length (filter touchesShared files))
                (totalLinesOf files)
        \<longrightarrow> riskLevel (analyzePR pr files) = ''High''"
    by (simp add: analyzePR_def Let_def)
  have scen: "length files = 15 \<and> length (filter touchesShared files) = 0
        \<and> totalLinesOf files = 300
        \<longrightarrow> riskScore (analyzePR pr files) = 30 \<and> riskLevel (analyzePR pr files) = ''Medium''"
    using raw rnd by (simp add: analyzePR_def Let_def)
  show ?thesis
    using rounded low medium high scen by blast
qed

text \<open>The amended claim at the scenario of the spec.\<close>

theorem analyzePR_risk_witness:
  "riskScore (analyzePR \<lparr>prTitle = ''Add new reporting widget''\<rparr>
      (replicate 15 \<lparr>path = ''src/reports/widget.ts'', linesAdded = 15, linesRemoved = 5\<rparr>)) = 30
   \<and> riskLevel (analyzePR \<lparr>prTitle = ''Add new reporting widget''\<rparr>
      (replicate 15 \<lparr>path = ''src/reports/widget.ts'', linesAdded = 15, linesRemoved = 5\<rparr>)) = ''Medium''"
proof -
  let ?fs = "replicate 15 \<lparr>path = ''src/reports/widget.ts'', linesAdded = 15, linesRemoved = 5\<rparr>"
  have h: "length ?fs = 15 \<and> length (filter touchesShared ?fs) = 0 \<and> totalLinesOf ?fs = 300"
    by code_simp
  show ?thesis
    using h analyzePR_risk [of "\<lparr>prTitle = ''Add new reporting widget''\<rparr>" ?fs]
    by blast
qed

subsection \<open>The keyword extractor\<close>

lemma splitRuns_nonempty: "splitRuns P s \<noteq> []"
  by (induction P s rule: splitRuns.induct) (auto simp: consHead_def split: list.splits)

lemma splitRuns_append_word:
  "\<forall>c \<in> set w. \<not> P c \<Longrightarrow>
   splitRuns P (w @ s) = (w @ hd (splitRuns P s)) # tl (splitRuns P s)"
proof (induction w)
  case Nil
  then show ?case using splitRuns_nonempty [of P s] by simp
next
  case (Cons c w)
  then show ?case by (simp add: consHead_def)
qed

lemma splitRuns_word: "\<forall>c \<in> set w. \<not> P c \<Longrightarrow> splitRuns P w = [w]"
  using splitRuns_append_word [of w P "[]"] by simp

lemma join_starts_word:
  "ws \<noteq> [] \<Longrightarrow> \<forall>w \<in> set ws. w \<noteq> [] \<and> (\<forall>c \<in> set w. \<not> P c) \<Longrightarrow>
   dropWhile P (join sep ws) = join sep ws"
proof (cases ws)
  case Nil
  assume "ws \<noteq> []"
  with Nil show ?thesis by simp
next
  case (Cons w ws')
  assume a: "\<forall>w \<in> set ws. w \<noteq> [] \<and> (\<forall>c \<in> set w. \<not> P c)"
  from a Cons obtain c cs where w: "w = c # cs" and c: "\<not> P c"
    by (cases w) auto
  show ?thesis
    using Cons w c by (cases ws') simp_all
qed

lemma splitRuns_join:
  "ws \<noteq> [] \<Longrightarrow> \<forall>w \<in> set ws. w \<noteq> [] \<and> (\<forall>c \<in> set w. \<not> P c) \<Longrightarrow> P sp \<Longrightarrow>
   splitRuns P (join [sp] ws) = ws"
proof (induction "[sp]" ws rule: join.induct)
  case 1
  then show ?case by simp
next
  case (2 x)
  then show ?case by (simp add: splitRuns_word)
next
  case (3 x y ys)
  have rest: "splitRuns P (join [sp] (y # ys)) = y # ys"
    using 3 by simp
  have dw: "dropWhile P (join [sp] (y # ys)) = join [sp] (y # ys)"
    using join_starts_word [of "y # ys" P "[sp]"] 3 by simp
  have "splitRuns P (join [sp] (x # y # ys))
          = (x @ hd (splitRuns P (sp # join [sp] (y # ys))))
            # tl (splitRuns P (sp # join [sp] (y # ys)))"
    using splitRuns_append_word [of x P "sp # join [sp] (y # ys)"] 3 by simp
  also have "splitRuns P (sp # join [sp] (y # ys)) = [] # (y # ys)"
    using 3(4) dw rest by simp
  finally show ?case by simp
qed

lemma uniq_distinct: "distinct (uniq xs)"
  by (simp add: uniq_def)

lemma set_uniq: "set (uniq xs) = set xs"
  by (simp add: uniq_def)

lemma uniq_id: "distinct xs \<Longrightarrow> uniq xs = xs"
  by (simp add: uniq_def distinct_remdups_id)

lemma lowerChar_id: "\<not> isUpper c \<Longrightarrow> lowerChar c = c"
  by (simp add: lowerChar_def)

lemma toLowerCase_id: "\<forall>c \<in> set s. \<not> isUpper c \<Longrightarrow> toLowerCase s = s"
  by (induction s) (simp_all add: toLowerCase_def lowerChar_id)

lemma set_join: "set (join sep ws) \<subseteq> set sep \<union> \<Union> (set ` set ws)"
  by (induction sep ws rule: join.induct) auto

lemma isLowerAlnum_not_upper: "isLowerAlnum c \<Longrightarrow> \<not> isUpper c"
  by (auto simp: isLowerAlnum_def isUpper_def)

lemma isLowerAlnum_not_sep: "isLowerAlnum c \<Longrightarrow> \<not> isKeywordSep c"
  by (auto simp: isLowerAlnum_def isKeywordSep_def isSpace_def)

lemma join_nonempty: "ws \<noteq> [] \<Longrightarrow> \<forall>w \<in> set ws. w \<noteq> [] \<Longrightarrow> join sep ws \<noteq> []"
  by (induction sep ws rule: join.induct) auto

text \<open>
  Claim C9. Keyword extraction is idempotent on its own output: extracting the keywords
  of the first result joined with single spaces gives the first result again, as the
  same list and so as the same set.
\<close>

theorem extractSignificantKeywords_idempotent:
  "extractSignificantKeywords (join '' '' (extractSignificantKeywords x))
     = extractSignificantKeywords x"
proof (cases "extractSignificantKeywords x = []")
  case True
  then show ?thesis by (simp add: extractSignificantKeywords_def)
next
  case False
  let ?ws = "extractSignificantKeywords x"
  have sig: "\<forall>w \<in> set ?ws. isSignificant w"
    by (auto simp: extractSignificantKeywords_def set_uniq)
  have dist: "distinct ?ws"
    by (simp add: extractSignificantKeywords_def uniq_distinct)
  have words: "\<forall>w \<in> set ?ws. w \<noteq> [] \<and> (\<forall>c \<in> set w. \<not> isKeywordSep c)"
    using sig by (auto simp: isSignificant_def list_all_iff isLowerAlnum_not_sep)
  have noupper: "\<forall>c \<in> set (join '' '' ?ws). \<not> isUpper c"
  proof
    fix c assume "c \<in> set (join '' '' ?ws)"
    then have "c = CHR '' '' \<or> (\<exists>w \<in> set ?ws. c \<in> set w)"
      using set_join [of "'' ''" ?ws] by auto
    then show "\<not> isUpper c"
    proof
      assume "c = CHR '' ''"
      then show ?thesis by (simp add: isUpper_def)
    next
      assume "\<exists>w \<in> set ?ws. c \<in> set w"
      then show ?thesis
        using sig by (auto simp: isSignificant_def list_all_iff isLowerAlnum_not_upper)
    qed
  qed
  have lower: "toLowerCase (join '' '' ?ws) = join '' '' ?ws"
    using noupper by (rule toLowerCase_id)
  have sep: "isKeywordSep (CHR '' '')"
    by (simp add: isKeywordSep_def isSpace_def)
  have split: "splitRuns isKeywordSep (join '' '' ?ws) = ?ws"
    using splitRuns_join [OF False words sep] .
  have keep: "filter isSignificant ?ws = ?ws"
    using sig by (simp add: filter_id_conv)
  have ne: "join '' '' ?ws \<noteq> []"
    using join_nonempty [OF False] words by blast
  have "extractSignificantKeywords (join '' '' ?ws)
          = uniq (filter isSignificant (splitRuns isKeywordSep (toLowerCase (join '' '' ?ws))))"
    using ne by (simp add: extractSignificantKeywords_def)
  also have "\<dots> = uniq ?ws"
    by (simp only: lower split keep)
  also have "\<dots> = ?ws"
    using dist by (rule uniq_id)
  finally show ?thesis .
qed

subsection \<open>The impact selector\<close>

lemma keepUnseen_keys:
  "set (map key (keepUnseen key seen xs)) = key ` set xs - set seen"
  by (induction xs arbitrary: seen) auto

lemma keepUnseen_distinct: "distinct (map key (keepUnseen key seen xs))"
  by (induction xs arbitrary: seen) (auto simp: keepUnseen_keys [simplified])

lemma keepUnseen_subset: "set (keepUnseen key seen xs) \<subseteq> set xs"
  by (induction xs arbitrary: seen) auto

lemma keepUnseen_distinct_input:
  "distinct (map key xs) \<Longrightarrow> keepUnseen key seen xs = filter (\<lambda>x. key x \<notin> set seen) xs"
proof (induction xs arbitrary: seen)
  case Nil
  then show ?case by simp
next
  case (Cons x xs)
  have other: "key y \<noteq> key x" if "y \<in> set xs" for y
  proof
    assume "key y = key x"
    then have "key x \<in> key ` set xs" using that by (metis imageI)
    then show False using Cons.prems by simp
  qed
  have "filter (\<lambda>y. key y \<notin> set (key x # seen)) xs = filter (\<lambda>y. key y \<notin> set seen) xs"
    by (rule filter_cong) (simp_all add: other)
  then show ?case using Cons by simp
qed


lemma buildResults_found:
  "buildResults ms groups seen found = Inr (groups', found') \<Longrightarrow>
   \<exists>new. found' = found @ new \<and> distinct (map idOf new)
        \<and> set (map idOf new) = (\<lambda>m. tc_id (hitCase m)) ` set ms - set seen
        \<and> set new \<subseteq> enrichedEntry ` set ms"
proof (induction ms arbitrary: groups seen found)
  case Nil
  then show ?case by simp
next
  case (Cons m ms)
  let ?key = "if sectionPath (hitCase m) = [] then ''Unknown Section'' else sectionPath (hitCase m)"
  from Cons.prems have ok: "?key \<notin> set inheritedKeys"
    by (auto simp: Let_def split: if_splits)
  show ?case
  proof (cases "tc_id (hitCase m) \<in> set seen")
    case True
    with Cons.prems ok
    have "buildResults ms (pushGroup ?key (enrichedEntry m) groups) seen found = Inr (groups', found')"
      by (simp add: Let_def split: if_splits)
    from Cons.IH [OF this] obtain new where
      "found' = found @ new" "distinct (map idOf new)"
      "set (map idOf new) = (\<lambda>m. tc_id (hitCase m)) ` set ms - set seen"
      "set new \<subseteq> enrichedEntry ` set ms"
      by blast
    with True show ?thesis by (intro exI [of _ new]) auto
  next
    case False
    with Cons.prems ok
    have "buildResults ms (pushGroup ?key (enrichedEntry m) groups) (tc_id (hitCase m) # seen)
            (found @ [enrichedEntry m]) = Inr (groups', found')"
      by (simp add: Let_def split: if_splits)
    from Cons.IH [OF this] obtain new where new:
      "found' = (found @ [enrichedEntry m]) @ new" "distinct (map idOf new)"
      "set (map idOf new) = (\<lambda>m. tc_id (hitCase m)) ` set ms - set (tc_id (hitCase m) # seen)"
      "set new \<subseteq> enrichedEntry ` set ms"
      by blast
    have id: "idOf (enrichedEntry m) = tc_id (hitCase m)"
      by (simp add: enrichedEntry_def)
    show ?thesis
      using new False id by (intro exI [of _ "enrichedEntry m # new"]) auto
  qed
qed

lemma directStage_ids_distinct: "distinct (map idOf (directStage jid inventory))"
proof -
  have "map idOf (map (directEntry jid) xs) = map tc_id xs" for xs
    by (simp add: directEntry_def)
  then show ?thesis
    by (simp add: directStage_def keepUnseen_distinct del: map_map)
qed

lemma directStage_ids:
  "jid \<noteq> [] \<Longrightarrow> set (map idOf (directStage jid inventory)) = tc_id ` {tc \<in> set inventory. refersTo jid tc}"
proof -
  assume j: "jid \<noteq> []"
  have m: "map idOf (map (directEntry jid) xs) = map tc_id xs" for xs
    by (simp add: directEntry_def)
  have "set (map idOf (directStage jid inventory))
          = set (map tc_id (keepUnseen tc_id [] (filter (refersTo jid) inventory)))"
    using j by (simp add: directStage_def m del: map_map)
  also have "\<dots> = tc_id ` set (filter (refersTo jid) inventory) - set []"
    by (rule keepUnseen_keys)
  finally show ?thesis by simp
qed

lemma directStage_entries:
  "e \<in> set (directStage jid inventory) \<Longrightarrow>
   ic_priority e = 1 \<and> matchType e = ''jira_reference'' \<and> ic_case e \<in> set inventory
   \<and> refersTo jid (ic_case e)"
  using keepUnseen_subset [of tc_id "[]" "filter (refersTo jid) inventory"]
  by (auto simp: directStage_def directEntry_def split: if_splits)

lemma getImpacted_direct:
  "getImpactedTestCases inventory opts = Inr res \<Longrightarrow>
   directJiraMatch res = directStage (jiraId opts) inventory"
  by (auto simp: getImpactedTestCases_def Let_def split: if_splits sum.splits)

lemma getImpacted_allCases:
  "getImpactedTestCases inventory opts = Inr res \<Longrightarrow>
   allCases res = directJiraMatch res @ componentWithKeywords res"
  by (auto simp: getImpactedTestCases_def Let_def split: if_splits sum.splits)

lemma getImpacted_component:
  assumes "getImpactedTestCases inventory opts = Inr res"
  shows "distinct (map idOf (componentWithKeywords res))
         \<and> set (map idOf (componentWithKeywords res)) \<inter> set (map idOf (directJiraMatch res)) = {}
         \<and> (\<forall>e \<in> set (componentWithKeywords res). ic_priority e = 3)
         \<and> (jiraComponents opts \<noteq> [] \<longrightarrow>
              set (map idOf (componentWithKeywords res))
                = (\<lambda>m. tc_id (hitCase m)) ` set (finalMatches inventory opts)
                  - set (map idOf (directJiraMatch res)))"
proof (cases "jiraComponents opts = []")
  case True
  with assms show ?thesis
    by (auto simp: getImpactedTestCases_def Let_def)
next
  case False
  let ?direct = "directStage (jiraId opts) inventory"
  let ?seen = "rev (map idOf ?direct)"
  from assms False obtain groups found where
    b: "buildResults (finalMatches inventory opts) [] ?seen [] = Inr (groups, found)"
    and r: "res = \<lparr>directJiraMatch = ?direct, componentMatch = [],
                   componentWithKeywords = found, allCases = ?direct @ found,
                   groupedByModule = groups\<rparr>"
    by (auto simp: getImpactedTestCases_def Let_def split: sum.splits)
  from buildResults_found [OF b] obtain new where new:
    "found = [] @ new" "distinct (map idOf new)"
    "set (map idOf new) = (\<lambda>m. tc_id (hitCase m)) ` set (finalMatches inventory opts) - set ?seen"
    "set new \<subseteq> enrichedEntry ` set (finalMatches inventory opts)"
    by blast
  have prio: "\<forall>e \<in> set new. ic_priority e = 3"
    using new(4) by (auto simp: enrichedEntry_def)
  show ?thesis
    using new(1,2,3) prio r False by auto
qed

text \<open>
  Claim C2. When the selector returns and a ticket id was given, every test case of the
  inventory whose reference field contains the ticket id, compared in lower case, has
  an entry with its id in \<open>directJiraMatch\<close>, of priority 1 and also in \<open>allCases\<close>;
  with the ids of the inventory distinct, as TestRail gives them, the entry is made of
  that very case. Neither the section path nor the title is looked at. The direct
  matches are the front of \<open>allCases\<close> and every other entry has priority 3.
\<close>

theorem direct_reference_priority:
  assumes "getImpactedTestCases inventory opts = Inr res"
    and "jiraId opts \<noteq> []"
    and "tc \<in> set inventory"
    and "str_includes (toLowerCase (tc_refs tc)) (toLowerCase (jiraId opts))"
  shows "(\<exists>e \<in> set (directJiraMatch res).
            tc_id (ic_case e) = tc_id tc \<and> ic_priority e = 1 \<and> matchType e = ''jira_reference''
            \<and> e \<in> set (allCases res))
         \<and> (distinct (map tc_id inventory) \<longrightarrow>
              directEntry (jiraId opts) tc \<in> set (directJiraMatch res))
         \<and> take (length (directJiraMatch res)) (allCases res) = directJiraMatch res
         \<and> (\<forall>e \<in> set (allCases res). e \<notin> set (directJiraMatch res) \<longrightarrow> ic_priority e = 3)"
proof -
  have d: "directJiraMatch res = directStage (jiraId opts) inventory"
    using assms(1) by (rule getImpacted_direct)
  have a: "allCases res = directJiraMatch res @ componentWithKeywords res"
    using assms(1) by (rule getImpacted_allCases)
  have ref: "refersTo (jiraId opts) tc"
    using assms(4) by (simp add: refersTo_def)
  have "tc_id tc \<in> set (map idOf (directStage (jiraId opts) inventory))"
    using directStage_ids [OF assms(2), of inventory] assms(3) ref by auto
  then obtain e where e: "e \<in> set (directStage (jiraId opts) inventory)" "idOf e = tc_id tc"
    by auto
  have first: "\<exists>e \<in> set (directJiraMatch res).
            tc_id (ic_case e) = tc_id tc \<and> ic_priority e = 1 \<and> matchType e = ''jira_reference''
            \<and> e \<in> set (allCases res)"
    using e directStage_entries [OF e(1)] d a by auto
  have second: "directEntry (jiraId opts) tc \<in> set (directJiraMatch res)"
    if dist: "distinct (map tc_id inventory)"
  proof -
    have "distinct (map tc_id (filter (refersTo (jiraId opts)) inventory))"
      using dist by (rule distinct_map_filter)
    then have "keepUnseen tc_id [] (filter (refersTo (jiraId opts)) inventory)
                 = filter (refersTo (jiraId opts)) inventory"
      by (simp add: keepUnseen_distinct_input)
    then show ?thesis
      using d assms(2,3) ref by (simp add: directStage_def)
  qed
  have third: "take (length (directJiraMatch res)) (allCases res) = directJiraMatch res"
    using a by simp
  have fourth: "\<forall>e \<in> set (allCases res). e \<notin> set (directJiraMatch res) \<longrightarrow> ic_priority e = 3"
    using a getImpacted_component [OF assms(1)] by auto
  show ?thesis
    using first second third fourth by blast
qed

text \<open>
  Claim C3. The returned \<open>allCases\<close> holds every test-case id at most once. It is the
  direct matches followed by the component matches, and an id that the direct stage
  found stands only for its direct entry, of priority 1.
\<close>

theorem allCases_no_duplicate_ids:
  assumes "getImpactedTestCases inventory opts = Inr res"
  shows "distinct (map (\<lambda>e. tc_id (ic_case e)) (allCases res))
         \<and> allCases res = directJiraMatch res @ componentWithKeywords res
         \<and> (\<forall>e \<in> set (allCases res).
              tc_id (ic_case e) \<in> (\<lambda>d. tc_id (ic_case d)) ` set (directJiraMatch res)
              \<longrightarrow> e \<in> set (directJiraMatch res) \<and> ic_priority e = 1)"
proof -
  have d: "directJiraMatch res = directStage (jiraId opts) inventory"
    using assms by (rule getImpacted_direct)
  have a: "allCases res = directJiraMatch res @ componentWithKeywords res"
    using assms by (rule getImpacted_allCases)
  note c = getImpacted_component [OF assms]
  have dd: "distinct (map idOf (directJiraMatch res))"
    using d directStage_ids_distinct by simp
  have dist: "distinct (map idOf (allCases res))"
    using a dd c by auto
  have prio: "\<forall>e \<in> set (allCases res).
              idOf e \<in> idOf ` set (directJiraMatch res)
              \<longrightarrow> e \<in> set (directJiraMatch res) \<and> ic_priority e = 1"
  proof (intro ballI impI)
    fix e assume e: "e \<in> set (allCases res)" and i: "idOf e \<in> idOf ` set (directJiraMatch res)"
    have "e \<notin> set (componentWithKeywords res)"
      using c i by auto
    then have "e \<in> set (directJiraMatch res)"
      using e a by simp
    then show "e \<in> set (directJiraMatch res) \<and> ic_priority e = 1"
      using d directStage_entries by simp
  qed
  show ?thesis
    using dist a prio by blast
qed

text \<open>
  The theorem of C2 on the sample suite: the selector returns, and the webform case,
  whose references name the ticket in lower case, is a direct match.
\<close>

theorem direct_reference_priority_witness:
  "\<exists>res. getImpactedTestCases sampleCases sampleOptions = Inr res
     \<and> directEntry ''PROJ-7'' webformCase \<in> set (directJiraMatch res)
     \<and> take (length (directJiraMatch res)) (allCases res) = directJiraMatch res"
proof -
  have "\<not> isl (getImpactedTestCases sampleCases sampleOptions)"
    by code_simp
  then obtain res where run: "getImpactedTestCases sampleCases sampleOptions = Inr res"
    by (cases "getImpactedTestCases sampleCases sampleOptions") auto
  have jid: "jiraId sampleOptions \<noteq> []"
    by code_simp
  have jid': "jiraId sampleOptions = ''PROJ-7''"
    by code_simp
  have mem: "webformCase \<in> set sampleCases"
    by (simp add: sampleCases_def)
  have ref: "str_includes (toLowerCase (tc_refs webformCase)) (toLowerCase (jiraId sampleOptions))"
    by code_simp
  have dist: "distinct (map tc_id sampleCases)"
    by code_simp
  show ?thesis
    using direct_reference_priority [OF run jid mem ref] dist run jid' by auto
qed

text \<open>
  The theorem of C3 on the sample suite: the webform case matches the ticket and the
  component, and appears once, as the direct match; the email case follows it.
\<close>

theorem allCases_no_duplicate_ids_witness:
  "\<exists>res. getImpactedTestCases sampleCases sampleOptions = Inr res
     \<and> distinct (map (\<lambda>e. tc_id (ic_case e)) (allCases res))
     \<and> map (\<lambda>e. tc_id (ic_case e)) (allCases res) = [1, 3]
     \<and> map ic_priority (allCases res) = [1, 3]"
proof -
  have shape: "case getImpactedTestCases sampleCases sampleOptions of
                 Inl e \<Rightarrow> False
               | Inr res \<Rightarrow> map (\<lambda>e. tc_id (ic_case e)) (allCases res) = [1, 3]
                             \<and> map ic_priority (allCases res) = [1, 3]"
    by code_simp
  then obtain res where run: "getImpactedTestCases sampleCases sampleOptions = Inr res"
    by (cases "getImpactedTestCases sampleCases sampleOptions") auto
  show ?thesis
    using allCases_no_duplicate_ids [OF run] run shape by auto
qed

subsection \<open>Component resolution\<close>

lemma lowerChar_not_upper: "\<not> isUpper (lowerChar c)"
  by (auto simp: lowerChar_def isUpper_def)

lemma toLowerCase_no_upper: "\<forall>c \<in> set (toLowerCase s). \<not> isUpper c"
  by (auto simp: toLowerCase_def lowerChar_not_upper)

lemma splitBeforeUpper_lower:
  "\<forall>c \<in> set s. \<not> isUpper c \<Longrightarrow> splitBeforeUpper s = [s]"
  by (induction s rule: splitBeforeUpper.induct) (auto simp: consHead_def)

lemma cleanedParts_lower:
  "p \<in> set (cleanedParts jiraComp) \<Longrightarrow> p \<noteq> [] \<and> (\<forall>c \<in> set p. \<not> isUpper c)"
  using toLowerCase_no_upper by (auto simp: cleanedParts_def)

lemma expansion_of_lower_parts:
  "\<forall>p \<in> set ps. \<forall>c \<in> set p. \<not> isUpper c \<Longrightarrow>
   concat (map (\<lambda>part. map toLowerCase (splitBeforeUpper part)) ps) = ps"
  by (induction ps) (simp_all add: splitBeforeUpper_lower toLowerCase_id)

lemma uniq_twice: "uniq (xs @ xs) = uniq xs"
  by (simp add: uniq_def remdups_append)

lemma componentParts_cleaned: "componentParts c = uniq (cleanedParts c)"
proof -
  have "concat (map (\<lambda>part. map toLowerCase (splitBeforeUpper part)) (cleanedParts c))
          = cleanedParts c"
    using cleanedParts_lower [of _ c] by (intro expansion_of_lower_parts) blast
  moreover have "filter (\<lambda>p. p \<noteq> []) (uniq (cleanedParts c)) = uniq (cleanedParts c)"
    using cleanedParts_lower [of _ c] by (simp add: filter_id_conv set_uniq)
  ultimately show ?thesis
    by (simp add: componentParts_def Let_def uniq_twice)
qed

text \<open>
  Claim C6, which the code misses. The comment in the source promises that
  "phsTemplates" gives "phs" and "templates", and the cut at capital letters does that
  on the label as written; but every part is put in lower case before it is cut, so
  the cut never finds a capital: the part set of "phsTemplates" is "phstemplates"
  alone, and for every label the expansion adds nothing to the cleaned parts.
\<close>

theorem camelCase_expansion_lost:
  "componentParts ''phsTemplates'' = [''phstemplates'']
   \<and> map toLowerCase (splitBeforeUpper ''phsTemplates'') = [''phs'', ''templates'']
   \<and> componentParts jiraComp = uniq (cleanedParts jiraComp)"
proof -
  have e1: "componentParts ''phsTemplates'' = [''phstemplates'']"
    by code_simp
  have e2: "map toLowerCase (splitBeforeUpper ''phsTemplates'') = [''phs'', ''templates'']"
    by code_simp
  show ?thesis
    using componentParts_cleaned [of jiraComp] e1 e2 by simp
qed

text \<open>
  Claim C8, as stated, fails: the label "Admin" is not empty, its only part is a role
  name, no entry of the table matches an empty part list, and the tag set is empty.
\<close>

theorem role_only_component_counterexample:
  "''Admin'' \<noteq> []
   \<and> componentTags ''Admin'' [(''Webform'', [''webform'', ''form-submission''])] = []"
  by code_simp

lemma componentParts_nonempty:
  assumes "p \<in> set (splitChar isPartSep jiraComp)" and "trim p \<noteq> []"
    and "toLowerCase (trim p) \<notin> set USER_ROLES"
  shows "componentParts jiraComp \<noteq> []"
proof -
  have "toLowerCase (trim p) \<noteq> []"
    using assms(2) by (simp add: toLowerCase_def)
  then have "toLowerCase (trim p) \<in> set (cleanedParts jiraComp)"
    using assms by (auto simp: cleanedParts_def)
  then have "toLowerCase (trim p) \<in> set (uniq (cleanedParts jiraComp))"
    by (simp add: set_uniq)
  then show ?thesis
    using componentParts_cleaned [of jiraComp] by auto
qed

text \<open>
  Claim C8, amended. When no entry of the traceability table matches the parts of a
  component label under containment in either direction, the parts themselves are the
  tag set; the tag set is then not empty whenever the label has a part, between its
  hyphens, underscores and white space, that is neither blank nor a role name.
\<close>

theorem unmatched_component_falls_back:
  "(list_all (\<lambda>(trCompName, tags). \<not> hasMatch (componentParts jiraComp) trCompName)
      componentMapping
      \<longrightarrow> componentTags jiraComp componentMapping = componentParts jiraComp)
   \<and> (list_all (\<lambda>(trCompName, tags). \<not> hasMatch (componentParts jiraComp) trCompName)
        componentMapping
      \<and> list_ex (\<lambda>p. trim p \<noteq> [] \<and> toLowerCase (trim p) \<notin> set USER_ROLES)
          (splitChar isPartSep jiraComp)
      \<longrightarrow> componentTags jiraComp componentMapping \<noteq> [])"
proof -
  have fallback: "componentTags jiraComp componentMapping = componentParts jiraComp"
    if "list_all (\<lambda>(trCompName, tags). \<not> hasMatch (componentParts jiraComp) trCompName)
          componentMapping"
  proof -
    have "matchedTRComponent (componentParts jiraComp) componentMapping = None"
      using that by (auto simp: matchedTRComponent_def find_None_iff list_all_iff)
    then show ?thesis
      by (simp add: componentTags_def Let_def)
  qed
  have nonempty: "componentParts jiraComp \<noteq> []"
    if "list_ex (\<lambda>p. trim p \<noteq> [] \<and> toLowerCase (trim p) \<notin> set USER_ROLES)
          (splitChar isPartSep jiraComp)"
    using that componentParts_nonempty [of _ jiraComp] by (auto simp: list_ex_iff)
  show ?thesis
    using fallback nonempty by auto
qed

text \<open>
  The amended claim for the label "Billing-Reports" against a table that only knows
  "Webform".
\<close>

theorem unmatched_component_falls_back_witness:
  "componentTags ''Billing-Reports'' [(''Webform'', [''webform'', ''form-submission''])]
     = [''billing'', ''reports'']
   \<and> componentTags ''Billing-Reports'' [(''Webform'', [''webform'', ''form-submission''])] \<noteq> []"
proof -
  let ?c = "''Billing-Reports''"
  let ?t = "[(''Webform'', [''webform'', ''form-submission''])]"
  have nomatch: "list_all (\<lambda>(trCompName, tags). \<not> hasMatch (componentParts ?c) trCompName) ?t"
    by code_simp
  have part: "list_ex (\<lambda>p. trim p \<noteq> [] \<and> toLowerCase (trim p) \<notin> set USER_ROLES)
          (splitChar isPartSep ?c)"
    by code_simp
  have parts: "componentParts ?c = [''billing'', ''reports'']"
    by code_simp
  show ?thesis
    using unmatched_component_falls_back [of ?c ?t] nomatch part parts by simp
qed

subsection \<open>The result cap\<close>

text \<open>
  Claim C7, as stated, fails: the result has no field for the cap. For the same
  inventory and ticket the selector returns the same result under the category
  "Relaxed PR", whose cap is 20, and under "Angry PR", whose cap is 80.
\<close>

theorem cap_not_in_result_counterexample:
  "getImpactedTestCases
      [\<lparr>tc_id = 7, tc_title = ''Login works'', tc_refs = ''PROJ-7'',
        sectionPath = ''Auth > Login'', section_id = Some 5, priority_id = None,
        custom_fields = ''{}''\<rparr>]
      \<lparr>jiraId = ''PROJ-7'', changedFiles = [], traceabilityMatrix = [], jiraTitle = [],
       prCategory = ''Relaxed PR'', jiraComponents = []\<rparr>
   = getImpactedTestCases
      [\<lparr>tc_id = 7, tc_title = ''Login works'', tc_refs = ''PROJ-7'',
        sectionPath = ''Auth > Login'', section_id = Some 5, priority_id = None,
        custom_fields = ''{}''\<rparr>]
      \<lparr>jiraId = ''PROJ-7'', changedFiles = [], traceabilityMatrix = [], jiraTitle = [],
       prCategory = ''Angry PR'', jiraComponents = []\<rparr>
   \<and> maxTestCases ''Relaxed PR'' = 20 \<and> maxTestCases ''Angry PR'' = 80"
  by code_simp

lemma finalMatches_prCategory:
  "finalMatches inventory (opts\<lparr>prCategory := cat\<rparr>) = finalMatches inventory opts"
  by (simp add: finalMatches_def)

lemma getImpacted_ids:
  assumes "getImpactedTestCases inventory opts = Inr res"
  shows "set (map idOf (allCases res))
           = set (map idOf (directStage (jiraId opts) inventory))
             \<union> (if jiraComponents opts = [] then {}
                else (\<lambda>m. tc_id (hitCase m)) ` set (finalMatches inventory opts))"
proof -
  have d: "directJiraMatch res = directStage (jiraId opts) inventory"
    using assms by (rule getImpacted_direct)
  have a: "allCases res = directJiraMatch res @ componentWithKeywords res"
    using assms by (rule getImpacted_allCases)
  note c = getImpacted_component [OF assms]
  show ?thesis
  proof (cases "jiraComponents opts = []")
    case True
    with assms show ?thesis
      by (auto simp: getImpactedTestCases_def Let_def)
  next
    case False
    then have "set (map idOf (componentWithKeywords res))
                = (\<lambda>m. tc_id (hitCase m)) ` set (finalMatches inventory opts)
                  - set (map idOf (directJiraMatch res))"
      using c by blast
    then show ?thesis
      using False a d by auto
  qed
qed

text \<open>
  Claim C7, amended. The selector computes the cap of the category (Relaxed 20, Sleepy
  30, Sarcastic 40, Overloaded 60, Angry 80) for its log only: the returned result is
  the same for every category, and \<open>allCases\<close> is not cut: it is the direct matches
  followed by the component matches, and holds the id of every direct match and of
  every match that survives the keyword filters.
\<close>

theorem cap_is_logged_only:
  "maxTestCases ''Relaxed PR'' = 20 \<and> maxTestCases ''Sleepy PR'' = 30
   \<and> maxTestCases ''Sarcastic PR'' = 40 \<and> maxTestCases ''Overloaded PR'' = 60
   \<and> maxTestCases ''Angry PR'' = 80
   \<and> getImpactedTestCases inventory (opts\<lparr>prCategory := cat\<rparr>)
       = getImpactedTestCases inventory opts
   \<and> (getImpactedTestCases inventory opts = Inr res \<longrightarrow>
        allCases res = directJiraMatch res @ componentWithKeywords res
        \<and> set (map (\<lambda>e. tc_id (ic_case e)) (allCases res))
            = set (map (\<lambda>e. tc_id (ic_case e)) (directStage (jiraId opts) inventory))
              \<union> (if jiraComponents opts = [] then {}
                 else (\<lambda>m. tc_id (hitCase m)) ` set (finalMatches inventory opts)))"
proof -
  have caps: "maxTestCases ''Relaxed PR'' = 20 \<and> maxTestCases ''Sleepy PR'' = 30
   \<and> maxTestCases ''Sarcastic PR'' = 40 \<and> maxTestCases ''Overloaded PR'' = 60
   \<and> maxTestCases ''Angry PR'' = 80"
    by code_simp
  have indep: "getImpactedTestCases inventory (opts\<lparr>prCategory := cat\<rparr>)
       = getImpactedTestCases inventory opts"
    by (simp add: getImpactedTestCases_def finalMatches_prCategory cong: if_cong)
  show ?thesis
    using caps indep getImpacted_allCases [of inventory opts res]
      getImpacted_ids [of inventory opts res] by blast
qed

text \<open>
  The amended claim on twenty-one cases that refer to the ticket, under the category
  "Relaxed PR": all twenty-one are returned, one more than the cap.
\<close>

theorem cap_is_logged_only_witness:
  "\<exists>res. getImpactedTestCases manyCases sampleOptions = Inr res
     \<and> getImpactedTestCases manyCases (sampleOptions\<lparr>prCategory := ''Angry PR''\<rparr>) = Inr res
     \<and> maxTestCases (prCategory sampleOptions) = 20
     \<and> length (allCases res) = 21"
proof -
  have shape: "case getImpactedTestCases manyCases sampleOptions of
                 Inl e \<Rightarrow> False
               | Inr res \<Rightarrow> length (allCases res) = 21"
    by code_simp
  then obtain res where run: "getImpactedTestCases manyCases sampleOptions = Inr res"
    by (cases "getImpactedTestCases manyCases sampleOptions") auto
  have cap: "maxTestCases (prCategory sampleOptions) = 20"
    by code_simp
  show ?thesis
    using cap_is_logged_only [where inventory = manyCases and opts = sampleOptions
        and cat = "''Angry PR''" and res = res] run shape cap
    by auto
qed

subsection \<open>The relevance scorer\<close>

lemma relevanceOf_range: "0 \<le> relevanceOf ctx tc \<and> relevanceOf ctx tc \<le> 100"
  by (simp add: relevanceOf_def)

lemma scoredTests_elem:
  "st \<in> set (scoredTests ctx tests) \<Longrightarrow>
   st_case st \<in> set tests \<and> relevanceScore st = relevanceOf ctx (st_case st)
   \<and> 0 < relevanceScore st"
  by (auto simp: scoredTests_def)

lemma scoredTests_sorted: "sorted (map (\<lambda>st. - relevanceScore st) (scoredTests ctx tests))"
  by (simp add: scoredTests_def)

lemma relevantTests_cases:
  "relevantTests scored = filter (\<lambda>st. relevanceScore st \<ge> 60) scored
   \<or> relevantTests scored = filter (\<lambda>st. relevanceScore st \<ge> 40) scored
   \<or> relevantTests scored = filter (\<lambda>st. relevanceScore st \<ge> 25) scored
   \<or> relevantTests scored = take 10 scored"
proof -
  let ?r60 = "filter (\<lambda>st. relevanceScore st \<ge> 60) scored"
  let ?r40 = "filter (\<lambda>st. relevanceScore st \<ge> 40) scored"
  let ?r25 = "filter (\<lambda>st. relevanceScore st \<ge> 25) scored"
  consider (none) "scored = []"
    | (first) "?r60 \<noteq> []"
    | (second) "?r60 = []" "scored \<noteq> []" "?r40 \<noteq> []"
    | (third) "?r60 = []" "scored \<noteq> []" "?r40 = []" "?r25 \<noteq> []"
    | (fourth) "?r60 = []" "scored \<noteq> []" "?r40 = []" "?r25 = []"
    by blast
  then show ?thesis
  proof cases
    case none
    then show ?thesis
      by (simp add: relevantTests_def)
  next
    case first
    then have "relevantTests scored = ?r60"
      unfolding relevantTests_def Let_def by (simp only: if_False simp_thms)
    then show ?thesis by simp
  next
    case second
    then have "relevantTests scored = ?r40"
      unfolding relevantTests_def Let_def by (simp only: if_True if_False simp_thms)
    then show ?thesis by simp
  next
    case third
    then have "relevantTests scored = ?r25"
      unfolding relevantTests_def Let_def by (simp only: if_True if_False simp_thms)
    then show ?thesis by simp
  next
    case fourth
    then have "relevantTests scored = take 10 scored"
      unfolding relevantTests_def Let_def by (simp only: if_True if_False simp_thms)
    then show ?thesis by simp
  qed
qed

lemma relevantTests_subset: "set (relevantTests scored) \<subseteq> set scored"
  using relevantTests_cases [of scored] by (auto dest: in_set_takeD)

lemma relevantTests_sorted:
  "sorted (map f scored) \<Longrightarrow> sorted (map f (relevantTests scored))"
  using relevantTests_cases [of scored]
  by (auto simp: sorted_filter take_map [symmetric] intro: sorted_wrt_take)

lemma descending:
  "sorted (map (\<lambda>st. - relevanceScore st) xs) \<Longrightarrow> sorted_wrt (\<ge>) (map relevanceScore xs)"
  by (induction xs) auto

lemma result_elem:
  assumes "r \<in> set (scoreRegressionTestsForRelevance componentMap tests files components
                       kws title description)"
  shows "st_case r \<in> set tests
         \<and> relevanceScore r
             = relevanceOf (scoringContextOf componentMap files components kws title
                              description) (st_case r)
         \<and> 0 < relevanceScore r"
proof -
  let ?ctx = "scoringContextOf componentMap files components kws title description"
  have "r \<in> set (relevantTests (scoredTests ?ctx tests))"
    using assms by (auto simp: scoreRegressionTestsForRelevance_def Let_def dest: in_set_takeD)
  then have "r \<in> set (scoredTests ?ctx tests)"
    using relevantTests_subset by blast
  then show ?thesis
    by (rule scoredTests_elem)
qed

text \<open>
  Claim C1. The relevance score of every test case lies between 0 and 100: after all
  bonuses and penalties are added, the sum is clamped below at 0 and above at 100; so
  does the score attached to every test case that the scorer returns.
\<close>

theorem relevance_score_clamped:
  "0 \<le> relevanceOf ctx tc \<and> relevanceOf ctx tc \<le> 100
   \<and> (\<forall>r \<in> set (scoreRegressionTestsForRelevance componentMap tests files components
                     kws title description).
         0 \<le> relevanceScore r \<and> relevanceScore r \<le> 100)"
proof -
  have "0 \<le> relevanceScore r \<and> relevanceScore r \<le> 100"
    if "r \<in> set (scoreRegressionTestsForRelevance componentMap tests files components
                     kws title description)" for r
    using result_elem [OF that] relevanceOf_range by simp
  then have outputs: "\<forall>r \<in> set (scoreRegressionTestsForRelevance componentMap tests files components
                     kws title description).
         0 \<le> relevanceScore r \<and> relevanceScore r \<le> 100"
    by (rule ballI)
  have lo: "0 \<le> relevanceOf ctx tc" and hi: "relevanceOf ctx tc \<le> 100"
    using relevanceOf_range [of ctx tc] by simp_all
  show ?thesis
    using lo hi outputs by (intro conjI)
qed

text \<open>
  Claim C10. The regression ranking enforces its cut: every returned entry is a test
  case of the input with its clamped score, which is strictly positive; the scores do
  not increase along the list; and the list is no longer than
  \<^verbatim>\<open>getMaxTestsForPRSize\<close> of the number of changed files, which is 10 up to 2 files,
  15 up to 5, 20 up to 10, 40 up to 20 and 60 beyond.
\<close>

theorem regression_ranking_truncated:
  "(\<forall>r \<in> set (scoreRegressionTestsForRelevance componentMap tests files components
                  kws title description).
       st_case r \<in> set tests
       \<and> relevanceScore r
           = relevanceOf (scoringContextOf componentMap files components kws title
                            description) (st_case r)
       \<and> 0 < relevanceScore r)
   \<and> sorted_wrt (\<ge>) (map relevanceScore
        (scoreRegressionTestsForRelevance componentMap tests files components kws title
           description))
   \<and> length (scoreRegressionTestsForRelevance componentMap tests files components kws
        title description) \<le> getMaxTestsForPRSize (length files)
   \<and> getMaxTestsForPRSize n
       = (if n \<le> 2 then 10 else if n \<le> 5 then 15 else if n \<le> 10 then 20
          else if n \<le> 20 then 40 else 60)"
proof -
  let ?ctx = "scoringContextOf componentMap files components kws title description"
  let ?out = "scoreRegressionTestsForRelevance componentMap tests files components kws
                title description"
  have out: "?out = take (getMaxTestsForPRSize (length files))
                      (relevantTests (scoredTests ?ctx tests))"
    by (simp add: scoreRegressionTestsForRelevance_def Let_def)
  have "sorted (map (\<lambda>st. - relevanceScore st) (relevantTests (scoredTests ?ctx tests)))"
    using scoredTests_sorted by (rule relevantTests_sorted)
  then have "sorted (map (\<lambda>st. - relevanceScore st) ?out)"
    unfolding out by (simp add: take_map [symmetric] sorted_wrt_take)
  then have sorted: "sorted_wrt (\<ge>) (map relevanceScore ?out)"
    by (rule descending)
  have len: "length ?out \<le> getMaxTestsForPRSize (length files)"
    unfolding out by simp
  have elems: "\<forall>r \<in> set ?out. st_case r \<in> set tests
       \<and> relevanceScore r = relevanceOf ?ctx (st_case r) \<and> 0 < relevanceScore r"
    using result_elem by blast
  have table: "getMaxTestsForPRSize n
       = (if n \<le> 2 then 10 else if n \<le> 5 then 15 else if n \<le> 10 then 20
          else if n \<le> 20 then 40 else 60)"
    by (simp add: getMaxTestsForPRSize_def)
  show ?thesis
    using elems sorted len table by (intro conjI)
qed

lemma sample_scores:
  "map (scoreBeforeClamp formContext) [genericCase, gridCase, smokeCase] = [- 10, 90, 225]"
  by code_simp

lemma sample_run:
  "scoreRegressionTestsForRelevance [] [genericCase, gridCase, smokeCase] formFiles
     [''Form'', ''Login''] [] ''Tidy'' []
   = [\<lparr>st_case = smokeCase, relevanceScore = 100\<rparr>, \<lparr>st_case = gridCase, relevanceScore = 90\<rparr>]"
proof -
  have ctx: "scoringContextOf [] formFiles [''Form'', ''Login''] [] ''Tidy'' [] = formContext"
    by (simp add: formContext_def)
  have rel: "map (relevanceOf formContext) [genericCase, gridCase, smokeCase] = [0, 90, 100]"
    using sample_scores by (simp add: relevanceOf_def)
  have scored: "scoredTests formContext [genericCase, gridCase, smokeCase]
      = [\<lparr>st_case = smokeCase, relevanceScore = 100\<rparr>, \<lparr>st_case = gridCase, relevanceScore = 90\<rparr>]"
    using rel by (simp add: scoredTests_def)
  have relevant: "relevantTests
        [\<lparr>st_case = smokeCase, relevanceScore = 100\<rparr>, \<lparr>st_case = gridCase, relevanceScore = 90\<rparr>]
      = [\<lparr>st_case = smokeCase, relevanceScore = 100\<rparr>, \<lparr>st_case = gridCase, relevanceScore = 90\<rparr>]"
    by (simp add: relevantTests_def)
  have n: "getMaxTestsForPRSize (length formFiles) = 10"
    by (simp add: formFiles_def getMaxTestsForPRSize_def)
  show ?thesis
    by (simp only: scoreRegressionTestsForRelevance_def ctx scored relevant n) simp
qed

text \<open>
  The theorem of C1 on three small cases: the sums before the clamp are -10, 90 and
  225, the scores 0, 90 and 100.
\<close>

theorem relevance_score_clamped_witness:
  "map (scoreBeforeClamp formContext) [genericCase, gridCase, smokeCase] = [- 10, 90, 225]
   \<and> map (relevanceOf formContext) [genericCase, gridCase, smokeCase] = [0, 90, 100]
   \<and> 0 \<le> relevanceOf formContext smokeCase \<and> relevanceOf formContext smokeCase \<le> 100
   \<and> 0 \<le> relevanceOf formContext genericCase \<and> relevanceOf formContext genericCase \<le> 100"
proof -
  have clamped: "map (relevanceOf formContext) [genericCase, gridCase, smokeCase] = [0, 90, 100]"
    using sample_scores by (simp add: relevanceOf_def)
  note high = relevance_score_clamped [where ctx = formContext and tc = smokeCase]
  note low = relevance_score_clamped [where ctx = formContext and tc = genericCase]
  show ?thesis
    using sample_scores clamped high [THEN conjunct1] high [THEN conjunct2, THEN conjunct1]
      low [THEN conjunct1] low [THEN conjunct2, THEN conjunct1]
    by (intro conjI)
qed

text \<open>
  The theorem of C10 on the three small cases and one changed file: the case with the
  score 0 is dropped and the other two are returned, the higher score first.
\<close>

theorem regression_ranking_truncated_witness:
  "scoreRegressionTestsForRelevance [] [genericCase, gridCase, smokeCase] formFiles
     [''Form'', ''Login''] [] ''Tidy'' []
     = [\<lparr>st_case = smokeCase, relevanceScore = 100\<rparr>, \<lparr>st_case = gridCase, relevanceScore = 90\<rparr>]
   \<and> sorted_wrt (\<ge>) (map relevanceScore
        (scoreRegressionTestsForRelevance [] [genericCase, gridCase, smokeCase] formFiles
           [''Form'', ''Login''] [] ''Tidy'' []))
   \<and> length (scoreRegressionTestsForRelevance [] [genericCase, gridCase, smokeCase] formFiles
           [''Form'', ''Login''] [] ''Tidy'' []) \<le> 10"
proof -
  have n: "getMaxTestsForPRSize (length formFiles) = 10"
    by (simp add: formFiles_def getMaxTestsForPRSize_def)
  note t = regression_ranking_truncated [where componentMap = "[]"
        and tests = "[genericCase, gridCase, smokeCase]"
        and files = formFiles and components = "[''Form'', ''Login'']"
        and kws = "[]" and title = "''Tidy''" and description = "[]"]
  have s: "sorted_wrt (\<ge>) (map relevanceScore
        (scoreRegressionTestsForRelevance [] [genericCase, gridCase, smokeCase] formFiles
           [''Form'', ''Login''] [] ''Tidy'' []))"
    using t [THEN conjunct2, THEN conjunct1] .
  have l: "length (scoreRegressionTestsForRelevance [] [genericCase, gridCase, smokeCase]
           formFiles [''Form'', ''Login''] [] ''Tidy'' []) \<le> 10"
    using t [THEN conjunct2, THEN conjunct2, THEN conjunct1] unfolding n .
  show ?thesis
    using sample_run s l by (intro conjI)
qed

end
